theory Spec2Isabelle
  imports Complex_Main
begin

section \<open>Data model of \<^verbatim>\<open>src/scripts/generateAnalytics.ts\<close>\<close>

text \<open>
  Timestamps. The script receives ISO-8601 strings and only ever uses them through
  \<^verbatim>\<open>new Date(s)\<close> (compared, subtracted via \<^verbatim>\<open>getTime()\<close>, or cut to the UTC calendar
  day by \<^verbatim>\<open>formatDate\<close>). A timestamp is therefore represented by its epoch value in
  milliseconds, an \<^typ>\<open>int\<close>; the well-formed timestamps the hosting API sends are
  in one-to-one correspondence with these values.

  Numbers. JavaScript numbers are IEEE doubles. Counts and epoch milliseconds are
  integers far below \<open>2^53\<close> and are exact. Quotients such as hours are modelled as
  exact \<^typ>\<open>real\<close> numbers, where the code has the nearest double: the two have the
  same sign and compare alike with 24, 168 and 720, but a mean of latencies, and its
  rounding to two decimals, can differ in the last place (a mean of exactly 0.145 is
  published as 0.14 by the code and is 0.15 here). Statements about published averages
  are therefore made up to 0.01, except at inputs where every intermediate value is
  an integer.
\<close>

record GitHubUser =
  login :: string
  avatar_url :: string
  user_type :: "string option"

record GitHubPullRequest =
  pr_number :: int
  pr_title :: string
  pr_user :: GitHubUser
  pr_created_at :: int
  pr_updated_at :: int
  pr_merged_at :: "int option"
  pr_state :: string
  pr_html_url :: string
  pr_draft :: bool

record Label =
  label_name :: string
  label_color :: string

record GitHubIssue =
  issue_number :: int
  issue_title :: string
  issue_user :: GitHubUser
  issue_created_at :: int
  issue_updated_at :: int
  issue_closed_at :: "int option"
  issue_state :: string
  issue_html_url :: string
  issue_labels :: "Label list"
  issue_pull_request :: "int option option"

datatype ReviewState = APPROVED | CHANGES_REQUESTED | COMMENTED | DISMISSED

record GitHubReview =
  review_id :: int
  review_user :: GitHubUser
  review_state :: ReviewState
  submitted_at :: int
  pull_request_url :: string

record TopReviewer =
  username :: string
  reviewCount :: nat
  avatarUrl :: string

record ReviewVelocity =
  rv_daily :: real
  rv_weekly :: nat
  rv_monthly :: nat

record DailyReview =
  dr_date :: int
  dr_reviews :: nat
  avgTimeHours :: real

record StateDistribution =
  approved :: nat
  changesRequested :: nat
  commented :: nat
  pending :: nat

record PrNeedingReview =
  nr_number :: int
  nr_title :: string
  nr_author :: string
  nr_authorAvatar :: string
  nr_createdAt :: int
  nr_url :: string
  nr_repository :: string
  nr_ageHours :: real
  nr_isDraft :: bool

record PrReadyToMerge =
  rm_number :: int
  rm_title :: string
  rm_author :: string
  rm_authorAvatar :: string
  rm_createdAt :: int
  rm_url :: string
  rm_repository :: string
  rm_approvals :: nat
  rm_ageHours :: real

record ReviewMetrics =
  totalReviews :: nat
  reviewsLast7Days :: nat
  reviewsLast30Days :: nat
  averageReviewTimeHours :: real
  topReviewers :: "TopReviewer list"
  reviewVelocity :: ReviewVelocity
  dailyReviewData :: "DailyReview list"
  reviewStateDistribution :: StateDistribution
  prsNeedingReview :: "PrNeedingReview list"
  prsReadyToMerge :: "PrReadyToMerge list"

section \<open>JavaScript primitives used by the script\<close>

subsection \<open>Plain objects used as dictionaries\<close>

text \<open>
  A \<^verbatim>\<open>Record<string, V>\<close> built from \<^verbatim>\<open>{}\<close> is a list of its own properties in
  creation order (keys pairwise distinct). \<^verbatim>\<open>Object.keys\<close> and \<^verbatim>\<open>Object.entries\<close> do
  not enumerate in creation order throughout: keys that are array indices (canonical
  decimal numerals below \<open>2^32 - 1\<close>) come first, in ascending numeric order, and
  only then the remaining string keys in creation order.
\<close>

type_synonym 'v js_object = "(string \<times> 'v) list"

definition is_digit :: "char \<Rightarrow> bool" where
  "is_digit c = (48 \<le> (of_char c :: nat) \<and> (of_char c :: nat) \<le> 57)"

definition digits_val :: "string \<Rightarrow> nat" where
  "digits_val s = foldl (\<lambda>acc c. 10 * acc + ((of_char c :: nat) - 48)) 0 s"

definition is_array_index :: "string \<Rightarrow> bool" where
  "is_array_index s =
     (s \<noteq> [] \<and> list_all is_digit s \<and> (s = ''0'' \<or> hd s \<noteq> CHR ''0'')
      \<and> digits_val s < 2 ^ 32 - 1)"

definition js_entries :: "'v js_object \<Rightarrow> (string \<times> 'v) list" where
  "js_entries obj =
     sort_key (\<lambda>e. digits_val (fst e)) (filter (\<lambda>e. is_array_index (fst e)) obj)
     @ filter (\<lambda>e. \<not> is_array_index (fst e)) obj"

definition js_keys :: "'v js_object \<Rightarrow> string list" where
  "js_keys obj = map fst (js_entries obj)"

text \<open>\<^verbatim>\<open>obj[k] = v\<close>: an existing own property keeps its position.\<close>

fun js_set :: "'v js_object \<Rightarrow> string \<Rightarrow> 'v \<Rightarrow> 'v js_object" where
  "js_set [] k v = [(k, v)]"
| "js_set ((k', v') # obj) k v =
     (if k' = k then (k, v) # obj else (k', v') # js_set obj k v)"

text \<open>
  A property read \<^verbatim>\<open>obj[k]\<close> on an object created by \<^verbatim>\<open>{}\<close> falls back to
  \<^verbatim>\<open>Object.prototype\<close>, whose twelve properties are all truthy values.
\<close>

definition object_prototype_names :: "string list" where
  "object_prototype_names =
     [''constructor'', ''__defineGetter__'', ''__defineSetter__'', ''hasOwnProperty'',
      ''__lookupGetter__'', ''__lookupSetter__'', ''isPrototypeOf'',
      ''propertyIsEnumerable'', ''toString'', ''valueOf'', ''__proto__'',
      ''toLocaleString'']"

subsection \<open>Strings and numbers\<close>

text \<open>\<^verbatim>\<open>s.split(c)\<close> for a one-character separator; the result is never empty.\<close>

fun split_char :: "char \<Rightarrow> string \<Rightarrow> string list" where
  "split_char c [] = [[]]"
| "split_char c (x # xs) =
     (if x = c then [] # split_char c xs
      else (case split_char c xs of
              [] \<Rightarrow> [[x]]
            | p # ps \<Rightarrow> (x # p) # ps))"

definition is_ws :: "char \<Rightarrow> bool" where
  "is_ws c = ((of_char c :: nat) \<in> {9, 10, 11, 12, 13, 32})"

text \<open>
  \<^verbatim>\<open>parseInt(s, 10)\<close>: leading white space is skipped, an optional sign is read, then
  the longest run of decimal digits; \<open>None\<close> stands for \<^verbatim>\<open>NaN\<close>.
\<close>

definition parseInt :: "string \<Rightarrow> int option" where
  "parseInt s =
     (let s1 = dropWhile is_ws s;
          sgn_rest = (case s1 of
                        [] \<Rightarrow> (1, [])
                      | c # r \<Rightarrow> if c = CHR ''-'' then (- 1, r)
                                 else if c = CHR ''+'' then (1, r) else (1, s1));
          ds = takeWhile is_digit (snd sgn_rest)
      in if ds = [] then None else Some (fst sgn_rest * int (digits_val ds)))"

text \<open>\<^verbatim>\<open>Math.round\<close> rounds to the nearest integer, halves upwards.\<close>

definition js_round :: "real \<Rightarrow> real" where
  "js_round x = of_int \<lfloor>x + 1 / 2\<rfloor>"

fun ends_with :: "string \<Rightarrow> string \<Rightarrow> bool" where
  "ends_with s suffix =
     (length suffix \<le> length s \<and> drop (length s - length suffix) s = suffix)"

subsection \<open>UTILS\<close>

definition isBotUser :: "GitHubUser \<Rightarrow> bool" where
  "isBotUser u =
     (if login u = [] then True
      else if (case user_type u of None \<Rightarrow> False | Some t \<Rightarrow> t \<noteq> [] \<and> t \<noteq> ''User'') then True
      else ends_with (login u) ''[bot]'')"

text \<open>
  \<^verbatim>\<open>daysAgo(n)\<close> is \<^verbatim>\<open>new Date()\<close> moved back \<open>n\<close> calendar days of local time with
  \<^verbatim>\<open>setDate\<close>. The clock reading \<open>now\<close> is a parameter, and the local offset from
  UTC is taken to be constant over the \<open>n\<close> days (as under \<^verbatim>\<open>TZ=UTC\<close>), so that a day
  is 86400000 ms; across a change of the local offset the code's value differs by
  that change.
\<close>

definition daysAgo :: "int \<Rightarrow> int \<Rightarrow> int" where
  "daysAgo now n = now - n * 86400000"

text \<open>
  \<^verbatim>\<open>formatDate\<close> yields the \<^verbatim>\<open>YYYY-MM-DD\<close> prefix of the ISO string, i.e. the UTC
  calendar day; it is represented by the day's number since the epoch.
\<close>

definition formatDate :: "int \<Rightarrow> int" where
  "formatDate d = d div 86400000"

section \<open>DATA PROCESSING: \<^verbatim>\<open>calculateReviewMetrics\<close>\<close>

subsection \<open>The local accumulators\<close>

record ReviewerStat =
  rs_count :: nat
  rs_avatar_url :: string

record DayData =
  dd_reviews :: nat
  dd_times :: "real list"

record ReviewAcc =
  totalReviews_acc :: nat
  reviewsLast7Days_acc :: nat
  reviewsLast30Days_acc :: nat
  reviewerStats :: "ReviewerStat js_object"
  reviewTimes :: "real list"
  dailyReviews :: "int \<Rightarrow> DayData option"
  stateDistribution :: StateDistribution

definition initial_acc :: ReviewAcc where
  "initial_acc =
     \<lparr>totalReviews_acc = 0, reviewsLast7Days_acc = 0, reviewsLast30Days_acc = 0,
      reviewerStats = [], reviewTimes = [], dailyReviews = (\<lambda>d. None),
      stateDistribution = \<lparr>approved = 0, changesRequested = 0, commented = 0, pending = 0\<rparr>\<rparr>"

subsection \<open>Processing all reviews (first loop)\<close>

text \<open>
  Truthiness of \<^verbatim>\<open>reviewerStats[login]\<close>: true for an own entry and for a name
  inherited from the prototype.
\<close>

definition has_property :: "'v js_object \<Rightarrow> string \<Rightarrow> bool" where
  "has_property obj k = (map_of obj k \<noteq> None \<or> k \<in> set object_prototype_names)"

text \<open>
  The two \<^verbatim>\<open>if (review.user && ...)\<close> statements. When the login names a prototype
  property no own entry is ever created, and the increment falls on the inherited
  value, outside \<^verbatim>\<open>reviewerStats\<close>.
\<close>

definition track_reviewer :: "ReviewerStat js_object \<Rightarrow> GitHubUser \<Rightarrow> ReviewerStat js_object" where
  "track_reviewer stats u =
     (let stats1 = (if \<not> has_property stats (login u)
                    then js_set stats (login u) \<lparr>rs_count = 0, rs_avatar_url = avatar_url u\<rparr>
                    else stats)
      in case map_of stats1 (login u) of
           Some e \<Rightarrow> js_set stats1 (login u) (e\<lparr>rs_count := rs_count e + 1\<rparr>)
         | None \<Rightarrow> stats1)"

definition count_state :: "ReviewState \<Rightarrow> StateDistribution \<Rightarrow> StateDistribution" where
  "count_state s sd =
     (case s of
        APPROVED \<Rightarrow> sd\<lparr>approved := approved sd + 1\<rparr>
      | CHANGES_REQUESTED \<Rightarrow> sd\<lparr>changesRequested := changesRequested sd + 1\<rparr>
      | COMMENTED \<Rightarrow> sd\<lparr>commented := commented sd + 1\<rparr>
      | DISMISSED \<Rightarrow> sd)"

text \<open>
  \<^verbatim>\<open>hoursToReview\<close>, against the creation time of the pull request that the review
  is paired with: the exact quotient.
\<close>

definition hoursToReview :: "GitHubPullRequest \<Rightarrow> GitHubReview \<Rightarrow> real" where
  "hoursToReview pr review =
     real_of_int (submitted_at review - pr_created_at pr) / (1000 * 60 * 60)"

definition process_review ::
  "int \<Rightarrow> int \<Rightarrow> GitHubPullRequest \<Rightarrow> GitHubReview \<Rightarrow> ReviewAcc \<Rightarrow> ReviewAcc" where
  "process_review last7Days last30Days pr review st =
     (let reviewDate = submitted_at review;
          dateStr = formatDate reviewDate;
          dayData = (case dailyReviews st dateStr of
                       None \<Rightarrow> \<lparr>dd_reviews = 0, dd_times = []\<rparr>
                     | Some d \<Rightarrow> d)
      in st\<lparr>totalReviews_acc := totalReviews_acc st + 1,
            reviewsLast7Days_acc :=
              (if reviewDate \<ge> last7Days then reviewsLast7Days_acc st + 1
               else reviewsLast7Days_acc st),
            reviewsLast30Days_acc :=
              (if reviewDate \<ge> last30Days then reviewsLast30Days_acc st + 1
               else reviewsLast30Days_acc st),
            reviewerStats := track_reviewer (reviewerStats st) (review_user review),
            reviewTimes := reviewTimes st @ [hoursToReview pr review],
            dailyReviews := (dailyReviews st)(dateStr \<mapsto>
               \<lparr>dd_reviews = dd_reviews dayData + 1,
                dd_times = dd_times dayData @ [hoursToReview pr review]\<rparr>),
            stateDistribution := count_state (review_state review) (stateDistribution st)\<rparr>)"

text \<open>
  The guards at the head of the \<^verbatim>\<open>forEach\<close> over \<^verbatim>\<open>Object.entries(allReviews)\<close>: the key
  is taken apart as \<^verbatim>\<open>owner/repo#number\<close> and the pull request is looked up with
  \<^verbatim>\<open>pullRequests.find\<close>; \<open>None\<close> is an early \<^verbatim>\<open>return\<close>.
\<close>

definition resolve_pr ::
  "GitHubPullRequest list \<Rightarrow> string js_object \<Rightarrow> string \<Rightarrow> GitHubPullRequest option" where
  "resolve_pr pullRequests repoMap compositeKey =
     (let keyParts = split_char CHR ''#'' compositeKey in
      if length keyParts \<noteq> 2 then None
      else let repoPath = keyParts ! 0; prNumberStr = keyParts ! 1 in
      if repoPath = [] \<or> prNumberStr = [] then None
      else let repoParts = split_char CHR ''/'' repoPath in
      if length repoParts \<noteq> 2 then None
      else let repoName = repoParts ! 1 in
      if repoName = [] then None
      else (case parseInt prNumberStr of
              None \<Rightarrow> None
            | Some prNumber \<Rightarrow>
                find (\<lambda>p. pr_number p = prNumber
                          \<and> map_of repoMap compositeKey = Some repoName) pullRequests))"

definition process_entry ::
  "int \<Rightarrow> int \<Rightarrow> GitHubPullRequest list \<Rightarrow> string js_object
     \<Rightarrow> string \<times> GitHubReview list \<Rightarrow> ReviewAcc \<Rightarrow> ReviewAcc" where
  "process_entry last7Days last30Days pullRequests repoMap entry st =
     (case resolve_pr pullRequests repoMap (fst entry) of
        None \<Rightarrow> st
      | Some pr \<Rightarrow> fold (process_review last7Days last30Days pr) (snd entry) st)"

definition process_all_reviews ::
  "int \<Rightarrow> GitHubPullRequest list \<Rightarrow> GitHubReview list js_object \<Rightarrow> string js_object
     \<Rightarrow> ReviewAcc" where
  "process_all_reviews now pullRequests allReviews repoMap =
     fold (process_entry (daysAgo now 7) (daysAgo now 30) pullRequests repoMap)
       (js_entries allReviews) initial_acc"

subsection \<open>Identifying PRs needing review and ready to merge (second loop)\<close>

text \<open>
  \<^verbatim>\<open>Object.keys(repoMap).find(key => ...)\<close>: the first key, in enumeration order,
  whose part after \<^verbatim>\<open>#\<close> parses to the wanted number and whose value is truthy
  (a non-empty string).
\<close>

definition key_matches :: "string js_object \<Rightarrow> int \<Rightarrow> string \<Rightarrow> bool" where
  "key_matches repoMap n key =
     (let keyParts = split_char CHR ''#'' key in
      if length keyParts \<noteq> 2 then False
      else let prNumberStr = keyParts ! 1 in
      if prNumberStr = [] then False
      else parseInt prNumberStr = Some n
           \<and> (case map_of repoMap key of None \<Rightarrow> False | Some v \<Rightarrow> v \<noteq> []))"

definition find_composite_key :: "string js_object \<Rightarrow> int \<Rightarrow> string option" where
  "find_composite_key repoMap n = find (key_matches repoMap n) (js_keys repoMap)"

text \<open>\<^verbatim>\<open>compositeKey ? (allReviews[compositeKey] || []) : []\<close>\<close>

definition reviews_of_key :: "GitHubReview list js_object \<Rightarrow> string option \<Rightarrow> GitHubReview list" where
  "reviews_of_key allReviews compositeKey =
     (case compositeKey of
        None \<Rightarrow> []
      | Some k \<Rightarrow> (case map_of allReviews k of None \<Rightarrow> [] | Some rs \<Rightarrow> rs))"

text \<open>\<^verbatim>\<open>compositeKey ? (repoMap[compositeKey] ?? 'unknown') : 'unknown'\<close>\<close>

definition repository_of_key :: "string js_object \<Rightarrow> string option \<Rightarrow> string" where
  "repository_of_key repoMap compositeKey =
     (case compositeKey of
        None \<Rightarrow> ''unknown''
      | Some k \<Rightarrow> (case map_of repoMap k of None \<Rightarrow> ''unknown'' | Some v \<Rightarrow> v))"

definition prReviews :: "GitHubReview list js_object \<Rightarrow> string js_object \<Rightarrow> GitHubPullRequest
     \<Rightarrow> GitHubReview list" where
  "prReviews allReviews repoMap pr =
     reviews_of_key allReviews (find_composite_key repoMap (pr_number pr))"

definition ageHours :: "int \<Rightarrow> int \<Rightarrow> real" where
  "ageHours now created = real_of_int (now - created) / (1000 * 60 * 60)"

definition considered :: "GitHubPullRequest \<Rightarrow> bool" where
  "considered pr = (\<not> (pr_state pr \<noteq> ''open'' \<or> pr_merged_at pr \<noteq> None \<or> pr_draft pr))"

definition needs_review :: "GitHubReview list \<Rightarrow> bool" where
  "needs_review rs = (length rs = 0 \<or> list_all (\<lambda>r. review_state r = COMMENTED) rs)"

definition ready_to_merge :: "GitHubReview list \<Rightarrow> bool" where
  "ready_to_merge rs =
     (length (filter (\<lambda>r. review_state r = APPROVED) rs) > 0
      \<and> length (filter (\<lambda>r. review_state r = CHANGES_REQUESTED) rs) = 0)"

definition needing_entry :: "int \<Rightarrow> string js_object \<Rightarrow> GitHubPullRequest \<Rightarrow> PrNeedingReview" where
  "needing_entry now repoMap pr =
     \<lparr>nr_number = pr_number pr, nr_title = pr_title pr, nr_author = login (pr_user pr),
      nr_authorAvatar = avatar_url (pr_user pr), nr_createdAt = pr_created_at pr,
      nr_url = pr_html_url pr,
      nr_repository = repository_of_key repoMap (find_composite_key repoMap (pr_number pr)),
      nr_ageHours = js_round (ageHours now (pr_created_at pr) * 10) / 10,
      nr_isDraft = pr_draft pr\<rparr>"

definition ready_entry ::
  "int \<Rightarrow> GitHubReview list js_object \<Rightarrow> string js_object \<Rightarrow> GitHubPullRequest \<Rightarrow> PrReadyToMerge" where
  "ready_entry now allReviews repoMap pr =
     \<lparr>rm_number = pr_number pr, rm_title = pr_title pr, rm_author = login (pr_user pr),
      rm_authorAvatar = avatar_url (pr_user pr), rm_createdAt = pr_created_at pr,
      rm_url = pr_html_url pr,
      rm_repository = repository_of_key repoMap (find_composite_key repoMap (pr_number pr)),
      rm_approvals = length (filter (\<lambda>r. review_state r = APPROVED)
                       (prReviews allReviews repoMap pr)),
      rm_ageHours = js_round (ageHours now (pr_created_at pr) * 10) / 10\<rparr>"

text \<open>One iteration of \<^verbatim>\<open>pullRequests.forEach\<close>, on the two work lists.\<close>

definition classify_pr ::
  "int \<Rightarrow> GitHubReview list js_object \<Rightarrow> string js_object \<Rightarrow> GitHubPullRequest
     \<Rightarrow> PrNeedingReview list \<times> PrReadyToMerge list
     \<Rightarrow> PrNeedingReview list \<times> PrReadyToMerge list" where
  "classify_pr now allReviews repoMap pr wl =
     (if \<not> considered pr then wl
      else let rs = prReviews allReviews repoMap pr;
               needing = (if needs_review rs
                          then fst wl @ [needing_entry now repoMap pr] else fst wl);
               ready = (if ready_to_merge rs
                        then snd wl @ [ready_entry now allReviews repoMap pr] else snd wl)
           in (needing, ready))"

definition classify_all ::
  "int \<Rightarrow> GitHubReview list js_object \<Rightarrow> string js_object \<Rightarrow> GitHubPullRequest list
     \<Rightarrow> PrNeedingReview list \<times> PrReadyToMerge list" where
  "classify_all now allReviews repoMap pullRequests =
     fold (classify_pr now allReviews repoMap) pullRequests ([], [])"

subsection \<open>Assembling the result\<close>

text \<open>\<^verbatim>\<open>times.reduce((a, b) => a + b, 0) / times.length\<close>, or 0 for no times; exact.\<close>

definition average :: "real list \<Rightarrow> real" where
  "average ts = (if length ts > 0 then sum_list ts / real (length ts) else 0)"

definition daily_review_entry :: "int \<Rightarrow> (int \<Rightarrow> DayData option) \<Rightarrow> nat \<Rightarrow> DailyReview" where
  "daily_review_entry now daily i =
     (let dateStr = formatDate (daysAgo now (int i));
          dayData = (case daily dateStr of
                       None \<Rightarrow> \<lparr>dd_reviews = 0, dd_times = []\<rparr>
                     | Some d \<Rightarrow> d)
      in \<lparr>dr_date = dateStr, dr_reviews = dd_reviews dayData,
          avgTimeHours = average (dd_times dayData)\<rparr>)"

definition top_reviewers :: "ReviewerStat js_object \<Rightarrow> TopReviewer list" where
  "top_reviewers stats =
     map (\<lambda>e. \<lparr>username = fst e, reviewCount = rs_count (snd e),
                avatarUrl = rs_avatar_url (snd e)\<rparr>)
       (take 10 (sort_key (\<lambda>e. - int (rs_count (snd e))) (js_entries stats)))"

definition calculateReviewMetrics ::
  "int \<Rightarrow> GitHubPullRequest list \<Rightarrow> GitHubReview list js_object \<Rightarrow> string js_object
     \<Rightarrow> ReviewMetrics" where
  "calculateReviewMetrics now pullRequests allReviews repoMap =
     (let st = process_all_reviews now pullRequests allReviews repoMap;
          wl = classify_all now allReviews repoMap pullRequests
      in \<lparr>totalReviews = totalReviews_acc st,
          reviewsLast7Days = reviewsLast7Days_acc st,
          reviewsLast30Days = reviewsLast30Days_acc st,
          averageReviewTimeHours = js_round (average (reviewTimes st) * 100) / 100,
          topReviewers = top_reviewers (reviewerStats st),
          reviewVelocity = \<lparr>rv_daily = real (reviewsLast7Days_acc st) / 7,
                            rv_weekly = reviewsLast7Days_acc st,
                            rv_monthly = reviewsLast30Days_acc st\<rparr>,
          dailyReviewData = map (daily_review_entry now (dailyReviews st)) (rev [0 ..< 14]),
          reviewStateDistribution = (stateDistribution st)\<lparr>pending := length (fst wl)\<rparr>,
          prsNeedingReview = take 20 (sort_key nr_ageHours (fst wl)),
          prsReadyToMerge = take 20 (sort_key rm_ageHours (snd wl))\<rparr>)"

section \<open>DATA PROCESSING: \<^verbatim>\<open>calculateIssueMetrics\<close>\<close>

record TriageVelocity =
  tv_daily :: real
  tv_weekly :: nat

record AgeDistribution =
  lessThan24h :: nat
  oneToSevenDays :: nat
  sevenToThirtyDays :: nat
  moreThanThirtyDays :: nat

record DailyTriage =
  dt_date :: int
  dt_triaged :: nat
  dt_pending :: nat
  dt_total :: nat

record IssuePendingTriage =
  pt_number :: int
  pt_title :: string
  pt_author :: string
  pt_authorAvatar :: string
  pt_createdAt :: int
  pt_url :: string
  pt_repository :: string
  pt_ageHours :: real
  pt_labels :: "string list"

record IssueMetrics =
  totalIssues :: nat
  openIssues :: nat
  closedIssues :: nat
  pendingTriage :: nat
  recentlyTriaged :: nat
  triageVelocity :: TriageVelocity
  ageDistribution :: AgeDistribution
  dailyTriageData :: "DailyTriage list"
  issuesPendingTriage :: "IssuePendingTriage list"

text \<open>
  \<^verbatim>\<open>toLowerCase\<close> on the ASCII letters. Bytes outside ASCII are left alone; no
  non-ASCII character lower-cases to a string of the recognized set.
\<close>

definition to_lower_char :: "char \<Rightarrow> char" where
  "to_lower_char c =
     (case map_of (zip ''ABCDEFGHIJKLMNOPQRSTUVWXYZ'' ''abcdefghijklmnopqrstuvwxyz'') c of
        None \<Rightarrow> c
      | Some l \<Rightarrow> l)"

definition toLowerCase :: "string \<Rightarrow> string" where
  "toLowerCase s = map to_lower_char s"

definition recognized_labels :: "string list" where
  "recognized_labels =
     [''bug'', ''enhancement'', ''feature'', ''documentation'', ''question'',
      ''help wanted'', ''good first issue'']"

text \<open>The predicate of \<^verbatim>\<open>openIssues.filter(...)\<close> that selects \<^verbatim>\<open>pendingTriage\<close>.\<close>

definition unrecognized :: "GitHubIssue \<Rightarrow> bool" where
  "unrecognized issue =
     (length (issue_labels issue) = 0
      \<or> \<not> list_ex (\<lambda>label. toLowerCase (label_name label) \<in> set recognized_labels)
            (issue_labels issue))"

definition pendingTriage_issues :: "GitHubIssue list \<Rightarrow> GitHubIssue list" where
  "pendingTriage_issues issues =
     filter unrecognized (filter (\<lambda>issue. issue_state issue = ''open'') issues)"

definition count_age :: "real \<Rightarrow> AgeDistribution \<Rightarrow> AgeDistribution" where
  "count_age ageInHours d =
     (if ageInHours < 24 then d\<lparr>lessThan24h := lessThan24h d + 1\<rparr>
      else if ageInHours < 24 * 7 then d\<lparr>oneToSevenDays := oneToSevenDays d + 1\<rparr>
      else if ageInHours < 24 * 30 then d\<lparr>sevenToThirtyDays := sevenToThirtyDays d + 1\<rparr>
      else d\<lparr>moreThanThirtyDays := moreThanThirtyDays d + 1\<rparr>)"

definition triage_entry :: "int \<Rightarrow> string js_object \<Rightarrow> GitHubIssue \<Rightarrow> IssuePendingTriage" where
  "triage_entry now repoMap issue =
     \<lparr>pt_number = issue_number issue, pt_title = issue_title issue,
      pt_author = login (issue_user issue), pt_authorAvatar = avatar_url (issue_user issue),
      pt_createdAt = issue_created_at issue, pt_url = issue_html_url issue,
      pt_repository =
        repository_of_key repoMap (find_composite_key repoMap (issue_number issue)),
      pt_ageHours = js_round (ageHours now (issue_created_at issue) * 10) / 10,
      pt_labels = map label_name (issue_labels issue)\<rparr>"

text \<open>
  The callback of \<^verbatim>\<open>pendingTriage.map\<close>: it counts the issue in \<^verbatim>\<open>ageDistribution\<close>
  and yields its detail record.
\<close>

definition triage_step ::
  "int \<Rightarrow> string js_object \<Rightarrow> GitHubIssue
     \<Rightarrow> AgeDistribution \<times> IssuePendingTriage list \<Rightarrow> AgeDistribution \<times> IssuePendingTriage list" where
  "triage_step now repoMap issue acc =
     (count_age (ageHours now (issue_created_at issue)) (fst acc),
      snd acc @ [triage_entry now repoMap issue])"

definition empty_ages :: AgeDistribution where
  "empty_ages = \<lparr>lessThan24h = 0, oneToSevenDays = 0, sevenToThirtyDays = 0,
                  moreThanThirtyDays = 0\<rparr>"

definition daily_triage_entry :: "int \<Rightarrow> GitHubIssue list \<Rightarrow> nat \<Rightarrow> DailyTriage" where
  "daily_triage_entry now issues i =
     (let dateStr = formatDate (daysAgo now (int i));
          dayTriaged = length (filter (\<lambda>issue. formatDate (issue_updated_at issue) = dateStr
                                 \<and> length (issue_labels issue) > 0) issues);
          dayPending = length (filter (\<lambda>issue. formatDate (issue_created_at issue) = dateStr
                                 \<and> length (issue_labels issue) = 0) issues)
      in \<lparr>dt_date = dateStr, dt_triaged = dayTriaged, dt_pending = dayPending,
          dt_total = dayTriaged + dayPending\<rparr>)"

definition calculateIssueMetrics :: "int \<Rightarrow> GitHubIssue list \<Rightarrow> string js_object \<Rightarrow> IssueMetrics" where
  "calculateIssueMetrics now issues repoMap =
     (let last7Days = daysAgo now 7;
          open_issues = filter (\<lambda>issue. issue_state issue = ''open'') issues;
          closed_issues = filter (\<lambda>issue. issue_state issue = ''closed'') issues;
          pending_issues = filter unrecognized open_issues;
          recently = filter (\<lambda>issue. issue_updated_at issue \<ge> last7Days
                               \<and> length (issue_labels issue) > 0) issues;
          acc = fold (triage_step now repoMap) pending_issues (empty_ages, [])
      in \<lparr>totalIssues = length issues,
          openIssues = length open_issues,
          closedIssues = length closed_issues,
          pendingTriage = length pending_issues,
          recentlyTriaged = length recently,
          triageVelocity = \<lparr>tv_daily = real (length recently) / 7,
                            tv_weekly = length recently\<rparr>,
          ageDistribution = fst acc,
          dailyTriageData = map (daily_triage_entry now issues) (rev [0 ..< 14]),
          issuesPendingTriage = take 50 (sort_key pt_ageHours (snd acc))\<rparr>)"

section \<open>GITHUB API CALLS\<close>

text \<open>
  \<^verbatim>\<open>fetchFromGitHub\<close> throws on a non-success status. The hosting service is a
  parameter: one function per endpoint shape the script requests, from the request's
  arguments to the thrown error or the decoded page.
\<close>

datatype error = UpstreamError string

record Repository =
  repo_name :: string
  owner_login :: string
  archived :: bool
  disabled :: bool

record GitHubApi =
  repos_page :: "nat \<Rightarrow> error + Repository list"
  pulls_page :: "string \<Rightarrow> string \<Rightarrow> nat \<Rightarrow> error + GitHubPullRequest list"
  issues_page :: "string \<Rightarrow> string \<Rightarrow> int \<Rightarrow> nat \<Rightarrow> error + GitHubIssue list"
  reviews_of :: "string \<Rightarrow> string \<Rightarrow> int \<Rightarrow> error + GitHubReview list"

definition perPage :: nat where
  "perPage = 100"

text \<open>
  The \<^verbatim>\<open>while (true)\<close> loops: \<open>None\<close> is a loop that never exits. Each loop returns
  its final \<^verbatim>\<open>page\<close> counter (the number of the last page requested) with its list.
\<close>

partial_function (option) getRepositories_loop ::
  "GitHubApi \<Rightarrow> nat \<Rightarrow> Repository list \<Rightarrow> (error + nat \<times> Repository list) option" where
  "getRepositories_loop api page allRepos =
     (case repos_page api page of
        Inl e \<Rightarrow> Some (Inl e)
      | Inr repos \<Rightarrow>
          if length repos = 0 then Some (Inr (page, allRepos))
          else if length repos < perPage then Some (Inr (page, allRepos @ repos))
          else getRepositories_loop api (page + 1) (allRepos @ repos))"

declare getRepositories_loop.simps [code]

definition getRepositories :: "GitHubApi \<Rightarrow> (error + Repository list) option" where
  "getRepositories api =
     map_option (map_sum id (\<lambda>r. filter (\<lambda>repo. \<not> archived repo \<and> \<not> disabled repo) (snd r)))
       (getRepositories_loop api 1 [])"

definition keep_pr :: "int \<Rightarrow> GitHubPullRequest \<Rightarrow> bool" where
  "keep_pr since pr = (\<not> isBotUser (pr_user pr) \<and> pr_updated_at pr \<ge> since)"

partial_function (option) getPullRequests_loop ::
  "GitHubApi \<Rightarrow> string \<Rightarrow> string \<Rightarrow> int \<Rightarrow> nat \<Rightarrow> GitHubPullRequest list
     \<Rightarrow> (error + nat \<times> GitHubPullRequest list) option" where
  "getPullRequests_loop api owner repo since page allPrs =
     (case pulls_page api owner repo page of
        Inl e \<Rightarrow> Some (Inl e)
      | Inr prs \<Rightarrow>
          if length prs = 0 then Some (Inr (page, allPrs))
          else if length prs < perPage \<or> list_ex (\<lambda>pr. pr_updated_at pr < since) prs
               then Some (Inr (page, allPrs @ filter (keep_pr since) prs))
          else getPullRequests_loop api owner repo since (page + 1)
                 (allPrs @ filter (keep_pr since) prs))"

declare getPullRequests_loop.simps [code]

definition getPullRequests ::
  "GitHubApi \<Rightarrow> string \<Rightarrow> string \<Rightarrow> int \<Rightarrow> (error + GitHubPullRequest list) option" where
  "getPullRequests api owner repo since =
     map_option (map_sum id snd) (getPullRequests_loop api owner repo since 1 [])"

definition keep_issue :: "int \<Rightarrow> GitHubIssue \<Rightarrow> bool" where
  "keep_issue since issue =
     (issue_pull_request issue = None \<and> \<not> isBotUser (issue_user issue)
      \<and> issue_updated_at issue \<ge> since)"

partial_function (option) getIssues_loop ::
  "GitHubApi \<Rightarrow> string \<Rightarrow> string \<Rightarrow> int \<Rightarrow> nat \<Rightarrow> GitHubIssue list
     \<Rightarrow> (error + nat \<times> GitHubIssue list) option" where
  "getIssues_loop api owner repo since page allIssues =
     (case issues_page api owner repo since page of
        Inl e \<Rightarrow> Some (Inl e)
      | Inr issues \<Rightarrow>
          if length issues = 0 then Some (Inr (page, allIssues))
          else if length issues < perPage
               then Some (Inr (page, allIssues @ filter (keep_issue since) issues))
          else getIssues_loop api owner repo since (page + 1)
                 (allIssues @ filter (keep_issue since) issues))"

declare getIssues_loop.simps [code]

definition getIssues ::
  "GitHubApi \<Rightarrow> string \<Rightarrow> string \<Rightarrow> int \<Rightarrow> (error + GitHubIssue list) option" where
  "getIssues api owner repo since =
     map_option (map_sum id snd) (getIssues_loop api owner repo since 1 [])"

text \<open>
  \<^verbatim>\<open>getReviews\<close>: the body of the \<^verbatim>\<open>try\<close> block, and the function with its
  \<^verbatim>\<open>catch\<close>. The result type keeps the possibility of a throw, so that the caller's
  handling of it is part of the model.
\<close>

definition getReviews_try :: "GitHubApi \<Rightarrow> string \<Rightarrow> string \<Rightarrow> int \<Rightarrow> error + GitHubReview list" where
  "getReviews_try api owner repo prNumber =
     (case reviews_of api owner repo prNumber of
        Inl e \<Rightarrow> Inl e
      | Inr reviews \<Rightarrow> Inr (filter (\<lambda>review. \<not> isBotUser (review_user review)) reviews))"

definition getReviews :: "GitHubApi \<Rightarrow> string \<Rightarrow> string \<Rightarrow> int \<Rightarrow> error + GitHubReview list" where
  "getReviews api owner repo prNumber =
     (case getReviews_try api owner repo prNumber of
        Inl e \<Rightarrow> Inr []
      | Inr reviews \<Rightarrow> Inr reviews)"

section \<open>MAIN SCRIPT: \<^verbatim>\<open>generateAnalytics\<close>\<close>

text \<open>The text a template literal gives for an integer \<^verbatim>\<open>${pr.number}\<close>.\<close>

definition digit_char :: "nat \<Rightarrow> char" where
  "digit_char d = ''0123456789'' ! d"

function show_nat :: "nat \<Rightarrow> string" where
  "show_nat n = (if n < 10 then [digit_char n] else show_nat (n div 10) @ [digit_char (n mod 10)])"
  by pat_completeness auto
termination
  by (relation "measure id") auto

definition number_to_string :: "int \<Rightarrow> string" where
  "number_to_string n = (if n < 0 then CHR ''-'' # show_nat (nat (- n)) else show_nat (nat n))"

text \<open>\<^verbatim>\<open>`${repo.owner.login}/${repo.name}#${pr.number}`\<close>\<close>

definition composite_key :: "Repository \<Rightarrow> int \<Rightarrow> string" where
  "composite_key repo n = owner_login repo @ ''/'' @ repo_name repo @ ''#'' @ number_to_string n"

record RunState =
  st_allPullRequests :: "GitHubPullRequest list"
  st_allIssues :: "GitHubIssue list"
  st_allReviews :: "GitHubReview list js_object"
  st_repoMap :: "string js_object"

text \<open>
  The body of the \<^verbatim>\<open>try\<close> block of one repository either completes or throws; in
  both cases the collections hold what was written up to that point.
\<close>

datatype 'a outcome = Done 'a | Thrown error 'a

fun state_of :: "'a outcome \<Rightarrow> 'a" where
  "state_of (Done s) = s"
| "state_of (Thrown e s) = s"

fun fetch_reviews ::
  "GitHubApi \<Rightarrow> Repository \<Rightarrow> GitHubPullRequest list \<Rightarrow> RunState \<Rightarrow> RunState outcome" where
  "fetch_reviews api repo [] st = Done st"
| "fetch_reviews api repo (pr # recentPRs) st =
     (case getReviews api (owner_login repo) (repo_name repo) (pr_number pr) of
        Inl e \<Rightarrow> Thrown e st
      | Inr reviews \<Rightarrow>
          fetch_reviews api repo recentPRs
            (if length reviews > 0
             then st\<lparr>st_allReviews :=
                      js_set (st_allReviews st) (composite_key repo (pr_number pr)) reviews\<rparr>
             else st))"

definition process_repo_try ::
  "GitHubApi \<Rightarrow> int \<Rightarrow> Repository \<Rightarrow> RunState \<Rightarrow> RunState outcome option" where
  "process_repo_try api since repo st =
     (case getPullRequests api (owner_login repo) (repo_name repo) since of
        None \<Rightarrow> None
      | Some (Inl e) \<Rightarrow> Some (Thrown e st)
      | Some (Inr pullRequests) \<Rightarrow>
          (let st1 = st\<lparr>st_allPullRequests := st_allPullRequests st @ pullRequests,
                        st_repoMap := fold (\<lambda>pr m. js_set m (composite_key repo (pr_number pr))
                                                      (repo_name repo))
                                        pullRequests (st_repoMap st)\<rparr>;
               recentPRs = take 30 pullRequests
           in case fetch_reviews api repo recentPRs st1 of
                Thrown e st2 \<Rightarrow> Some (Thrown e st2)
              | Done st2 \<Rightarrow>
                  (case getIssues api (owner_login repo) (repo_name repo) since of
                     None \<Rightarrow> None
                   | Some (Inl e) \<Rightarrow> Some (Thrown e st2)
                   | Some (Inr issues) \<Rightarrow>
                       Some (Done (st2\<lparr>st_allIssues := st_allIssues st2 @ issues,
                          st_repoMap := fold (\<lambda>issue m. js_set m
                                                 (composite_key repo (issue_number issue))
                                                 (repo_name repo))
                                          issues (st_repoMap st2)\<rparr>)))))"

text \<open>The \<^verbatim>\<open>catch\<close> of the loop body only logs: the run goes on to the next repository.\<close>

definition process_repo :: "GitHubApi \<Rightarrow> int \<Rightarrow> Repository \<Rightarrow> RunState \<Rightarrow> RunState option" where
  "process_repo api since repo st = map_option state_of (process_repo_try api since repo st)"

fun process_repos :: "GitHubApi \<Rightarrow> int \<Rightarrow> Repository list \<Rightarrow> RunState \<Rightarrow> RunState option" where
  "process_repos api since [] st = Some st"
| "process_repos api since (repo # mainRepos) st =
     (case process_repo api since repo st of
        None \<Rightarrow> None
      | Some st' \<Rightarrow> process_repos api since mainRepos st')"

record AnalyticsData =
  organization :: string
  lastUpdated :: int
  reviewMetrics :: ReviewMetrics
  issueMetrics :: IssueMetrics
  repositories :: nat

definition ORG :: string where
  "ORG = ''CircuitVerse''"

definition empty_run :: RunState where
  "empty_run = \<lparr>st_allPullRequests = [], st_allIssues = [], st_allReviews = [], st_repoMap = []\<rparr>"

text \<open>
  The collecting part of \<^verbatim>\<open>generateAnalytics\<close>, up to the call of the two aggregators.
\<close>

definition collect :: "GitHubApi \<Rightarrow> int \<Rightarrow> (error + nat \<times> RunState) option" where
  "collect api now =
     (case getRepositories api of
        None \<Rightarrow> None
      | Some (Inl e) \<Rightarrow> Some (Inl e)
      | Some (Inr repos) \<Rightarrow>
          (let mainRepos = take 15 repos;
               since = daysAgo now 180
           in map_option (\<lambda>st. Inr (length mainRepos, st))
                (process_repos api since mainRepos empty_run)))"

text \<open>
  A failure that escapes to the outer \<^verbatim>\<open>catch\<close> ends the process with status 1:
  the value \<open>Inl\<close>.
\<close>

definition generateAnalytics :: "GitHubApi \<Rightarrow> int \<Rightarrow> (error + AnalyticsData) option" where
  "generateAnalytics api now =
     map_option (map_sum id (\<lambda>r.
        \<lparr>organization = ORG, lastUpdated = now,
         reviewMetrics = calculateReviewMetrics now (st_allPullRequests (snd r))
                           (st_allReviews (snd r)) (st_repoMap (snd r)),
         issueMetrics = calculateIssueMetrics now (st_allIssues (snd r)) (st_repoMap (snd r)),
         repositories = fst r\<rparr>))
       (collect api now)"

section \<open>The reviews visited by the first loop\<close>

text \<open>
  The pairs of resolved pull request and review that the first loop of
  \<^verbatim>\<open>calculateReviewMetrics\<close> visits, in the order it visits them, as one list; the
  loop is the fold of \<open>review_step\<close> over this list (\<open>process_all_reviews_pairs\<close>).
\<close>

definition counted_pairs ::
  "GitHubPullRequest list \<Rightarrow> GitHubReview list js_object \<Rightarrow> string js_object
     \<Rightarrow> (GitHubPullRequest \<times> GitHubReview) list" where
  "counted_pairs pullRequests allReviews repoMap =
     concat (map (\<lambda>entry. case resolve_pr pullRequests repoMap (fst entry) of
                            None \<Rightarrow> []
                          | Some pr \<Rightarrow> map (Pair pr) (snd entry))
               (js_entries allReviews))"


definition review_step :: "int \<Rightarrow> int \<Rightarrow> GitHubPullRequest \<times> GitHubReview \<Rightarrow> ReviewAcc \<Rightarrow> ReviewAcc" where
  "review_step last7Days last30Days p = process_review last7Days last30Days (fst p) (snd p)"

section \<open>Order of the reviewer table\<close>

text \<open>
  The logins of the visited reviews in visiting order, the position at which a login
  is first seen, and the order in which \<^verbatim>\<open>Object.entries(reviewerStats)\<close> lists two
  logins: array-index logins first, by ascending numeric value, then the others by
  first appearance.
\<close>

definition reviewer_logins :: "(GitHubPullRequest \<times> GitHubReview) list \<Rightarrow> string list" where
  "reviewer_logins pairs = map (\<lambda>p. login (review_user (snd p))) pairs"

definition first_seen :: "string list \<Rightarrow> string \<Rightarrow> nat" where
  "first_seen ls l = length (takeWhile (\<lambda>x. x \<noteq> l) ls)"

definition enumerated_before :: "string list \<Rightarrow> string \<Rightarrow> string \<Rightarrow> bool" where
  "enumerated_before ls a b =
     (if is_array_index a
      then (if is_array_index b then digits_val a \<le> digits_val b else True)
      else (if is_array_index b then False else first_seen ls a < first_seen ls b))"

text \<open>The ranking of two entries: higher count first; equal counts in enumeration order.\<close>

definition ranked_before :: "string list \<Rightarrow> TopReviewer \<Rightarrow> TopReviewer \<Rightarrow> bool" where
  "ranked_before ls a b =
     (reviewCount a > reviewCount b
      \<or> (reviewCount a = reviewCount b \<and> enumerated_before ls (username a) (username b)))"

text \<open>The invariant of \<^verbatim>\<open>reviewerStats\<close> after the reviews of the users \<open>us\<close>.\<close>

definition reviewers_inv :: "GitHubUser list \<Rightarrow> ReviewerStat js_object \<Rightarrow> bool" where
  "reviewers_inv us S =
     (distinct (map fst S)
      \<and> set (map fst S) = {l \<in> set (map login us). l \<notin> set object_prototype_names}
      \<and> sorted_wrt (\<lambda>a b. first_seen (map login us) a < first_seen (map login us) b) (map fst S)
      \<and> (\<forall>k e. map_of S k = Some e \<longrightarrow>
             rs_count e = length (filter (\<lambda>u. login u = k) us)
             \<and> (\<exists>u. find (\<lambda>u. login u = k) us = Some u \<and> rs_avatar_url e = avatar_url u)))"

section \<open>Sample data\<close>

definition ex_user :: "string \<Rightarrow> GitHubUser" where
  "ex_user l = \<lparr>login = l, avatar_url = l @ ''.png'', user_type = Some ''User''\<rparr>"

definition ex_pr :: "int \<Rightarrow> string \<Rightarrow> int \<Rightarrow> GitHubPullRequest" where
  "ex_pr n t created =
     \<lparr>pr_number = n, pr_title = t, pr_user = ex_user ''alice'', pr_created_at = created,
      pr_updated_at = created, pr_merged_at = None, pr_state = ''open'', pr_html_url = t,
      pr_draft = False\<rparr>"

definition ex_review :: "string \<Rightarrow> ReviewState \<Rightarrow> int \<Rightarrow> GitHubReview" where
  "ex_review l s t =
     \<lparr>review_id = 1, review_user = ex_user l, review_state = s, submitted_at = t,
      pull_request_url = []\<rparr>"

definition ex_issue :: "int \<Rightarrow> string list \<Rightarrow> string \<Rightarrow> int \<Rightarrow> GitHubIssue" where
  "ex_issue n ls s created =
     \<lparr>issue_number = n, issue_title = ''t'', issue_user = ex_user ''alice'',
      issue_created_at = created, issue_updated_at = created, issue_closed_at = None,
      issue_state = s, issue_html_url = ''u'',
      issue_labels = map (\<lambda>l. \<lparr>label_name = l, label_color = ''ededed''\<rparr>) ls,
      issue_pull_request = None\<rparr>"

definition ex_repo :: "string \<Rightarrow> Repository" where
  "ex_repo n = \<lparr>repo_name = n, owner_login = ''o'', archived = False, disabled = False\<rparr>"

text \<open>
  A service with one repository holding one pull request, whose review endpoint always
  answers with a server error.
\<close>

definition ex_api_reviews_down :: GitHubApi where
  "ex_api_reviews_down =
     \<lparr>repos_page = (\<lambda>page. Inr (if page = 1 then [ex_repo ''A''] else [])),
      pulls_page = (\<lambda>owner repo page.
         Inr (if page = 1 then [ex_pr 5 ''PR 5 of A'' 1000] else [])),
      issues_page = (\<lambda>owner repo since page. Inr []),
      reviews_of = (\<lambda>owner repo n. Inl (UpstreamError ''GitHub API 500: down''))\<rparr>"

text \<open>
  A service whose first page of pull requests is full (100 entries) and ends with one
  updated before the cut-off; a second page exists.
\<close>

definition ex_api_stale :: "GitHubApi" where
  "ex_api_stale =
     \<lparr>repos_page = (\<lambda>page. Inr []),
      pulls_page = (\<lambda>owner repo page.
         Inr (if page = 1 then replicate 99 (ex_pr 1 ''fresh'' 2000) @ [ex_pr 2 ''stale'' 500]
              else [ex_pr 3 ''next page'' 2000])),
      issues_page = (\<lambda>owner repo since page. Inr []),
      reviews_of = (\<lambda>owner repo n. Inr [])\<rparr>"

text \<open>
  An organization with two repositories. Repository A has one pull request, number 5,
  approved once. Repository B has 31 pull requests without reviews; the 31st, beyond
  the 30 whose reviews are requested, has number 5 as well.
\<close>

definition ex_api_two_repos :: GitHubApi where
  "ex_api_two_repos =
     \<lparr>repos_page = (\<lambda>page. Inr (if page = 1 then [ex_repo ''A'', ex_repo ''B''] else [])),
      pulls_page = (\<lambda>owner repo page.
         Inr (if page \<noteq> 1 then []
              else if repo = ''A'' then [ex_pr 5 ''PR 5 of A'' 15548400000]
              else map (\<lambda>n. ex_pr (int n) ''other PR of B'' 15548400000) [6 ..< 36]
                   @ [ex_pr 5 ''PR 5 of B'' 15548400000])),
      issues_page = (\<lambda>owner repo since page. Inr []),
      reviews_of = (\<lambda>owner repo n.
         Inr (if repo = ''A'' \<and> n = 5 then [ex_review ''bob'' APPROVED 15550000000] else []))\<rparr>"

text \<open>Five reviews by three reviewers, one of them with a numeric login.\<close>

definition ex_tied_reviews :: "GitHubReview list js_object" where
  "ex_tied_reviews =
     [(''o/A#5'',
       [ex_review ''bob'' APPROVED 3600000, ex_review ''2024'' COMMENTED 3600000,
        ex_review ''carol'' COMMENTED 3600000, ex_review ''bob'' COMMENTED 3600000,
        ex_review ''2024'' APPROVED 3600000])]"

section \<open>Evaluation rules\<close>

lemmas review_defs =
  calculateReviewMetrics_def Let_def classify_all_def classify_pr_def considered_def
  prReviews_def find_composite_key_def js_keys_def js_entries_def is_array_index_def
  is_digit_def key_matches_def parseInt_def is_ws_def digits_val_def reviews_of_key_def
  ready_to_merge_def needs_review_def ready_entry_def needing_entry_def
  repository_of_key_def ageHours_def js_round_def process_all_reviews_def
  process_entry_def process_review_def resolve_pr_def track_reviewer_def has_property_def
  object_prototype_names_def count_state_def hoursToReview_def daysAgo_def formatDate_def
  initial_acc_def top_reviewers_def average_def daily_review_entry_def

lemmas sample_defs = ex_pr_def ex_user_def ex_review_def ex_issue_def

lemmas fetch_defs =
  collect_def getRepositories_def getRepositories_loop.simps getPullRequests_def
  getPullRequests_loop.simps getIssues_def getIssues_loop.simps getReviews_def
  getReviews_try_def process_repo_def process_repo_try_def composite_key_def
  number_to_string_def digit_char_def perPage_def keep_pr_def keep_issue_def isBotUser_def
  empty_run_def daysAgo_def

section \<open>The two work lists\<close>

lemma classify_all_fold:
  "fold (classify_pr now allReviews repoMap) prs wl =
     (fst wl @ map (needing_entry now repoMap)
        (filter (\<lambda>pr. considered pr \<and> needs_review (prReviews allReviews repoMap pr)) prs),
      snd wl @ map (ready_entry now allReviews repoMap)
        (filter (\<lambda>pr. considered pr \<and> ready_to_merge (prReviews allReviews repoMap pr)) prs))"
  by (induction prs arbitrary: wl) (auto simp: classify_pr_def Let_def)

lemma needs_review_not_ready: "needs_review rs \<Longrightarrow> \<not> ready_to_merge rs"
  by (auto simp: needs_review_def ready_to_merge_def list_all_iff filter_empty_conv)

text \<open>
  C3. The two predicates are never both true of a pull request's resolved review
  list, and no pull-request number occurs both in the published \<^verbatim>\<open>prsNeedingReview\<close>
  and in the published \<^verbatim>\<open>prsReadyToMerge\<close>: a pull request is never on both work lists.
\<close>

theorem needing_review_excludes_ready_to_merge:
  "\<not> (needs_review (prReviews allReviews repoMap pr)
       \<and> ready_to_merge (prReviews allReviews repoMap pr))
   \<and> nr_number ` set (prsNeedingReview (calculateReviewMetrics now prs allReviews repoMap))
     \<inter> rm_number ` set (prsReadyToMerge (calculateReviewMetrics now prs allReviews repoMap)) = {}"
proof
  show "\<not> (needs_review (prReviews allReviews repoMap pr)
       \<and> ready_to_merge (prReviews allReviews repoMap pr))"
    using needs_review_not_ready by blast
next
  let ?m = "calculateReviewMetrics now prs allReviews repoMap"
  have n: "set (prsNeedingReview ?m) \<subseteq> needing_entry now repoMap `
       {pr \<in> set prs. considered pr \<and> needs_review (prReviews allReviews repoMap pr)}"
    using set_take_subset[of 20]
    by (fastforce simp: calculateReviewMetrics_def Let_def classify_all_def classify_all_fold)
  have r: "set (prsReadyToMerge ?m) \<subseteq> ready_entry now allReviews repoMap `
       {pr \<in> set prs. considered pr \<and> ready_to_merge (prReviews allReviews repoMap pr)}"
    using set_take_subset[of 20]
    by (fastforce simp: calculateReviewMetrics_def Let_def classify_all_def classify_all_fold)
  show "nr_number ` set (prsNeedingReview ?m) \<inter> rm_number ` set (prsReadyToMerge ?m) = {}"
  proof (rule ccontr)
    assume "\<not> ?thesis"
    then obtain a b where a: "a \<in> set (prsNeedingReview ?m)"
      and b: "b \<in> set (prsReadyToMerge ?m)"
      and ab: "nr_number a = rm_number b" by auto
    from a n obtain p where p: "a = needing_entry now repoMap p"
      "needs_review (prReviews allReviews repoMap p)" by auto
    from b r obtain q where q: "b = ready_entry now allReviews repoMap q"
      "ready_to_merge (prReviews allReviews repoMap q)" by auto
    from ab p q have "pr_number p = pr_number q"
      by (simp add: needing_entry_def ready_entry_def)
    then have "prReviews allReviews repoMap p = prReviews allReviews repoMap q"
      by (simp add: prReviews_def)
    with p q needs_review_not_ready show False by auto
  qed
qed

theorem needing_review_excludes_ready_to_merge_witness:
  "\<not> (needs_review [ex_review ''bob'' APPROVED 3600000]
       \<and> ready_to_merge [ex_review ''bob'' APPROVED 3600000])
   \<and> nr_number ` set (prsNeedingReview (calculateReviewMetrics 7200000
        [ex_pr 5 ''approved'' 0, ex_pr 6 ''fresh'' 0]
        [(''o/A#5'', [ex_review ''bob'' APPROVED 3600000])]
        [(''o/A#5'', ''A''), (''o/A#6'', ''A'')])) = {6}
   \<and> rm_number ` set (prsReadyToMerge (calculateReviewMetrics 7200000
        [ex_pr 5 ''approved'' 0, ex_pr 6 ''fresh'' 0]
        [(''o/A#5'', [ex_review ''bob'' APPROVED 3600000])]
        [(''o/A#5'', ''A''), (''o/A#6'', ''A'')])) = {5}"
  using needing_review_excludes_ready_to_merge
    [of "[(''o/A#5'', [ex_review ''bob'' APPROVED 3600000])]"
        "[(''o/A#5'', ''A''), (''o/A#6'', ''A'')]" "ex_pr 5 ''approved'' 0" 7200000
        "[ex_pr 5 ''approved'' 0, ex_pr 6 ''fresh'' 0]"]
  by (simp add: review_defs sample_defs)

section \<open>Repository lookup\<close>

text \<open>
  C1. The lookup of a pull request's composite key compares the number only. Take
  pull request 5 of repository A (created at 0 h) and pull request 5 of repository B
  (created at 0.5 h), the latter approved once at 1 h; now is 2 h. Both pull requests
  are looked up under the key of A: the pull request of B is reported with repository
  A, its approval is not seen, and it is listed as needing review instead of ready to
  merge. The review stored under the key of B is paired with the first pull request
  numbered 5, that of A, so its latency is 1 h instead of 0.5 h.
\<close>

theorem repository_lookup_ignores_repository:
  "map (\<lambda>e. (nr_title e, nr_repository e))
     (prsNeedingReview (calculateReviewMetrics 7200000
        [ex_pr 5 ''PR 5 of A'' 0, ex_pr 5 ''PR 5 of B'' 1800000]
        [(''o/B#5'', [ex_review ''bob'' APPROVED 3600000])]
        [(''o/A#5'', ''A''), (''o/B#5'', ''B'')]))
    = [(''PR 5 of B'', ''A''), (''PR 5 of A'', ''A'')]
   \<and> prsReadyToMerge (calculateReviewMetrics 7200000
        [ex_pr 5 ''PR 5 of A'' 0, ex_pr 5 ''PR 5 of B'' 1800000]
        [(''o/B#5'', [ex_review ''bob'' APPROVED 3600000])]
        [(''o/A#5'', ''A''), (''o/B#5'', ''B'')]) = []
   \<and> averageReviewTimeHours (calculateReviewMetrics 7200000
        [ex_pr 5 ''PR 5 of A'' 0, ex_pr 5 ''PR 5 of B'' 1800000]
        [(''o/B#5'', [ex_review ''bob'' APPROVED 3600000])]
        [(''o/A#5'', ''A''), (''o/B#5'', ''B'')]) = 1"
  by (simp add: review_defs sample_defs)

section \<open>Pending triage\<close>

text \<open>
  C6. An issue is pending triage exactly when it is open and either has no label or
  none of its label names, lower-cased, is in the recognized set; the published count
  is the number of these issues; an issue that is not open is never pending triage;
  the single label \<^verbatim>\<open>wontfix\<close> leaves an issue unrecognized, the labels \<^verbatim>\<open>bug\<close>,
  \<^verbatim>\<open>wontfix\<close> do not.
\<close>

theorem pending_triage_iff:
  "(issue \<in> set (pendingTriage_issues issues) \<longleftrightarrow>
      issue \<in> set issues \<and> issue_state issue = ''open''
      \<and> (issue_labels issue = []
         \<or> (\<forall>l \<in> set (issue_labels issue).
               toLowerCase (label_name l) \<notin> set recognized_labels)))
   \<and> pendingTriage (calculateIssueMetrics now issues repoMap)
       = length (pendingTriage_issues issues)
   \<and> (issue_state issue \<noteq> ''open'' \<longrightarrow> issue \<notin> set (pendingTriage_issues issues))
   \<and> unrecognized (issue\<lparr>issue_labels := [\<lparr>label_name = ''wontfix'', label_color = c\<rparr>]\<rparr>)
   \<and> \<not> unrecognized (issue\<lparr>issue_labels := [\<lparr>label_name = ''bug'', label_color = c\<rparr>,
                                              \<lparr>label_name = ''wontfix'', label_color = c'\<rparr>]\<rparr>)"
  by (auto simp: pendingTriage_issues_def unrecognized_def list_ex_iff calculateIssueMetrics_def
       Let_def toLowerCase_def to_lower_char_def recognized_labels_def)

theorem pending_triage_iff_witness:
  "ex_issue 7 [''Bug''] ''open'' 0 \<notin> set (pendingTriage_issues
      [ex_issue 7 [''Bug''] ''open'' 0, ex_issue 8 [''wontfix''] ''open'' 0,
       ex_issue 9 [] ''closed'' 0])
   \<and> ex_issue 8 [''wontfix''] ''open'' 0 \<in> set (pendingTriage_issues
      [ex_issue 7 [''Bug''] ''open'' 0, ex_issue 8 [''wontfix''] ''open'' 0,
       ex_issue 9 [] ''closed'' 0])
   \<and> ex_issue 9 [] ''closed'' 0 \<notin> set (pendingTriage_issues
      [ex_issue 7 [''Bug''] ''open'' 0, ex_issue 8 [''wontfix''] ''open'' 0,
       ex_issue 9 [] ''closed'' 0])"
  using
    pending_triage_iff [of "ex_issue 7 [''Bug''] ''open'' 0"
      "[ex_issue 7 [''Bug''] ''open'' 0, ex_issue 8 [''wontfix''] ''open'' 0,
        ex_issue 9 [] ''closed'' 0]"]
    pending_triage_iff [of "ex_issue 8 [''wontfix''] ''open'' 0"
      "[ex_issue 7 [''Bug''] ''open'' 0, ex_issue 8 [''wontfix''] ''open'' 0,
        ex_issue 9 [] ''closed'' 0]"]
    pending_triage_iff [of "ex_issue 9 [] ''closed'' 0"
      "[ex_issue 7 [''Bug''] ''open'' 0, ex_issue 8 [''wontfix''] ''open'' 0,
        ex_issue 9 [] ''closed'' 0]"]
  by (simp add: ex_issue_def ex_user_def toLowerCase_def to_lower_char_def
        recognized_labels_def)

section \<open>Failures of the review endpoint\<close>

lemma getReviews_Inr: "\<exists>reviews. getReviews api owner repo n = Inr reviews"
  by (simp add: getReviews_def split: sum.splits)

lemma fetch_reviews_Done: "\<exists>st'. fetch_reviews api r prs st = Done st'"
proof (induction prs arbitrary: st)
  case Nil
  show ?case by simp
next
  case (Cons pr prs)
  obtain reviews where
    "getReviews api (owner_login r) (repo_name r) (pr_number pr) = Inr reviews"
    using getReviews_Inr by blast
  then show ?case using Cons.IH by simp
qed

text \<open>
  C7. \<^verbatim>\<open>getReviews\<close> always returns a list and never throws: the empty list when the
  request fails, the reviews of non-bot users otherwise. Hence the orchestrator's loop
  over a repository's recent pull requests always completes, and the \<^verbatim>\<open>try\<close> block of
  a repository whose pull requests and issues are fetched completes whatever the review
  endpoint answers: a failing review request never reaches the \<^verbatim>\<open>catch\<close> of the
  repository, let alone ends the run.
\<close>

theorem getReviews_never_throws:
  "(\<exists>reviews. getReviews api owner repo n = Inr reviews)
   \<and> (\<forall>e. reviews_of api owner repo n = Inl e \<longrightarrow> getReviews api owner repo n = Inr [])
   \<and> (\<forall>rs. reviews_of api owner repo n = Inr rs \<longrightarrow>
         getReviews api owner repo n
           = Inr (filter (\<lambda>review. \<not> isBotUser (review_user review)) rs))
   \<and> (\<exists>st'. fetch_reviews api r prs st = Done st')
   \<and> (\<forall>pullRequests issues.
         getPullRequests api (owner_login r) (repo_name r) since = Some (Inr pullRequests)
         \<and> getIssues api (owner_login r) (repo_name r) since = Some (Inr issues)
         \<longrightarrow> (\<exists>st'. process_repo_try api since r st = Some (Done st')))"
proof -
  have "\<exists>st'. process_repo_try api since r st = Some (Done st')"
    if "getPullRequests api (owner_login r) (repo_name r) since = Some (Inr pullRequests)"
      and "getIssues api (owner_login r) (repo_name r) since = Some (Inr issues)"
    for pullRequests issues
  proof -
    obtain st2 where "fetch_reviews api r (take 30 pullRequests)
        (st\<lparr>st_allPullRequests := st_allPullRequests st @ pullRequests,
            st_repoMap := fold (\<lambda>pr m. js_set m (composite_key r (pr_number pr)) (repo_name r))
                            pullRequests (st_repoMap st)\<rparr>) = Done st2"
      using fetch_reviews_Done by blast
    then show ?thesis
      using that by (simp add: process_repo_try_def Let_def)
  qed
  then show ?thesis
    using getReviews_Inr fetch_reviews_Done
    by (simp add: getReviews_def getReviews_try_def)
qed

theorem getReviews_never_throws_witness:
  "reviews_of ex_api_reviews_down ''o'' ''A'' 5 = Inl (UpstreamError ''GitHub API 500: down'')
   \<and> getReviews ex_api_reviews_down ''o'' ''A'' 5 = Inr []
   \<and> process_repo_try ex_api_reviews_down 0 (ex_repo ''A'') empty_run =
       Some (Done \<lparr>st_allPullRequests = [ex_pr 5 ''PR 5 of A'' 1000], st_allIssues = [],
                   st_allReviews = [], st_repoMap = [(''o/A#5'', ''A'')]\<rparr>)"
  using getReviews_never_throws [of ex_api_reviews_down "''o''" "''A''" 5 "ex_repo ''A''" "[]"
      empty_run 0]
  by (simp add: ex_api_reviews_down_def fetch_defs ex_repo_def sample_defs)

section \<open>Age distribution\<close>

lemma fold_triage_step_fst:
  "fst (fold (triage_step now repoMap) is acc) =
     fold (\<lambda>i. count_age (ageHours now (issue_created_at i))) is (fst acc)"
  by (induction "is" arbitrary: acc) (simp_all add: triage_step_def)

lemma fold_count_age:
  "fold (\<lambda>i. count_age (age i)) is d =
     \<lparr>lessThan24h = lessThan24h d + length (filter (\<lambda>i. age i < 24) is),
      oneToSevenDays = oneToSevenDays d
        + length (filter (\<lambda>i. 24 \<le> age i \<and> age i < 168) is),
      sevenToThirtyDays = sevenToThirtyDays d
        + length (filter (\<lambda>i. 168 \<le> age i \<and> age i < 720) is),
      moreThanThirtyDays = moreThanThirtyDays d + length (filter (\<lambda>i. 720 \<le> age i) is)\<rparr>"
proof (induction "is" arbitrary: d)
  case Nil
  show ?case by simp
next
  case (Cons i "is")
  show ?case
    by (simp add: Cons.IH) (simp add: count_age_def)
qed

text \<open>
  C8. The four counters of \<^verbatim>\<open>ageDistribution\<close> count the pending-triage issues whose
  age in hours \<open>a\<close> satisfies \<open>a < 24\<close>, \<open>24 \<le> a < 168\<close>, \<open>168 \<le> a < 720\<close> and
  \<open>720 \<le> a\<close>; an age of exactly 24 h, 7 \<times> 24 h and 30 \<times> 24 h falls into the
  second, third and fourth bucket. (The age is the exact quotient of the milliseconds
  by 3600000; the double-precision quotient compares with 24, 168 and 720 in the same
  way, division being monotone and exact at these three values.)
\<close>

theorem age_buckets_half_open:
  "ageDistribution (calculateIssueMetrics now issues repoMap) =
     \<lparr>lessThan24h = length (filter (\<lambda>i. ageHours now (issue_created_at i) < 24)
                       (pendingTriage_issues issues)),
      oneToSevenDays = length (filter (\<lambda>i. 24 \<le> ageHours now (issue_created_at i)
                                          \<and> ageHours now (issue_created_at i) < 168)
                       (pendingTriage_issues issues)),
      sevenToThirtyDays = length (filter (\<lambda>i. 168 \<le> ageHours now (issue_created_at i)
                                          \<and> ageHours now (issue_created_at i) < 720)
                       (pendingTriage_issues issues)),
      moreThanThirtyDays = length (filter (\<lambda>i. 720 \<le> ageHours now (issue_created_at i))
                       (pendingTriage_issues issues))\<rparr>
   \<and> count_age 24 empty_ages = empty_ages\<lparr>oneToSevenDays := 1\<rparr>
   \<and> count_age (7 * 24) empty_ages = empty_ages\<lparr>sevenToThirtyDays := 1\<rparr>
   \<and> count_age (30 * 24) empty_ages = empty_ages\<lparr>moreThanThirtyDays := 1\<rparr>
   \<and> ageHours now (now - 24 * 3600000) = 24"
  by (simp add: calculateIssueMetrics_def Let_def fold_triage_step_fst fold_count_age
        pendingTriage_issues_def empty_ages_def count_age_def ageHours_def)

theorem age_buckets_half_open_witness:
  "ageDistribution (calculateIssueMetrics 2592000000
      [ex_issue 1 [] ''open'' 2588400000, ex_issue 2 [] ''open'' 2505600000,
       ex_issue 3 [] ''open'' 1987200000, ex_issue 4 [] ''open'' 0] [])
     = \<lparr>lessThan24h = 1, oneToSevenDays = 1, sevenToThirtyDays = 1, moreThanThirtyDays = 1\<rparr>"
  using age_buckets_half_open [of 2592000000
      "[ex_issue 1 [] ''open'' 2588400000, ex_issue 2 [] ''open'' 2505600000,
        ex_issue 3 [] ''open'' 1987200000, ex_issue 4 [] ''open'' 0]" "[]"]
  by (simp add: pendingTriage_issues_def unrecognized_def ageHours_def sample_defs)

section \<open>Pagination of pull requests\<close>

lemma getPullRequests_loop_run:
  assumes "\<forall>p. page \<le> p \<and> p \<le> k \<longrightarrow> pulls_page api owner repo p = Inr (pages p)"
    and "\<forall>p. page \<le> p \<and> p < k \<longrightarrow> length (pages p) = perPage
            \<and> \<not> list_ex (\<lambda>pr. pr_updated_at pr < since) (pages p)"
    and "length (pages k) < perPage \<or> list_ex (\<lambda>pr. pr_updated_at pr < since) (pages k)"
    and "page \<le> k"
  shows "getPullRequests_loop api owner repo since page acc =
           Some (Inr (k, acc @ concat (map (\<lambda>p. filter (keep_pr since) (pages p)) [page ..< Suc k])))"
  using assms
proof (induction "k - page" arbitrary: page acc)
  case 0
  then have pk: "page = k" by simp
  have fetch: "pulls_page api owner repo k = Inr (pages k)"
    using "0.prems"(1) pk by simp
  show ?case
    using "0.prems"(3) fetch
    by (subst getPullRequests_loop.simps) (auto simp: pk)
next
  case (Suc d)
  then have lt: "page < k" by simp
  have fetch: "pulls_page api owner repo page = Inr (pages page)"
    using Suc.prems(1) lt by simp
  have full: "length (pages page) = perPage"
    "\<not> list_ex (\<lambda>pr. pr_updated_at pr < since) (pages page)"
    using Suc.prems(2) lt by simp_all
  have IH: "getPullRequests_loop api owner repo since (Suc page)
              (acc @ filter (keep_pr since) (pages page)) =
            Some (Inr (k, (acc @ filter (keep_pr since) (pages page))
               @ concat (map (\<lambda>p. filter (keep_pr since) (pages p)) [Suc page ..< Suc k])))"
  proof (rule Suc.hyps(1))
    show "d = k - Suc page" using Suc.hyps(2) by simp
    show "\<forall>p. Suc page \<le> p \<and> p \<le> k \<longrightarrow> pulls_page api owner repo p = Inr (pages p)"
      using Suc.prems(1) by simp
    show "\<forall>p. Suc page \<le> p \<and> p < k \<longrightarrow> length (pages p) = perPage
            \<and> \<not> list_ex (\<lambda>pr. pr_updated_at pr < since) (pages p)"
      using Suc.prems(2) by simp
    show "length (pages k) < perPage \<or> list_ex (\<lambda>pr. pr_updated_at pr < since) (pages k)"
      using Suc.prems(3) .
    show "Suc page \<le> k" using lt by simp
  qed
  have upt: "[page ..< Suc k] = page # [Suc page ..< Suc k]"
    using lt by (simp add: upt_conv_Cons)
  show ?case
    using fetch full IH
    by (subst getPullRequests_loop.simps) (simp add: upt perPage_def del: upt_Suc)
qed

text \<open>
  C2. Let page \<open>k\<close> be the first page that is short (fewer than 100 items) or holds a
  pull request updated before the cut-off, all earlier pages being full and free of such
  pull requests. Then the loop ends having requested page \<open>k\<close> last, whatever lies on
  later pages and even if page \<open>k\<close> is full, and returns the pages \<open>1..k\<close> concatenated,
  each filtered to non-bot authors updated on or after the cut-off.
\<close>

theorem getPullRequests_stops:
  assumes "1 \<le> k"
    and "\<forall>p. 1 \<le> p \<and> p \<le> k \<longrightarrow> pulls_page api owner repo p = Inr (pages p)"
    and "\<forall>p. 1 \<le> p \<and> p < k \<longrightarrow> length (pages p) = 100
            \<and> (\<forall>pr \<in> set (pages p). \<not> pr_updated_at pr < since)"
    and "length (pages k) < 100 \<or> (\<exists>pr \<in> set (pages k). pr_updated_at pr < since)"
  shows "getPullRequests_loop api owner repo since 1 [] =
           Some (Inr (k, concat (map (\<lambda>p. filter (\<lambda>pr. \<not> isBotUser (pr_user pr)
                                                     \<and> since \<le> pr_updated_at pr) (pages p))
                                  [1 ..< Suc k])))
         \<and> getPullRequests api owner repo since =
           Some (Inr (concat (map (\<lambda>p. filter (\<lambda>pr. \<not> isBotUser (pr_user pr)
                                                     \<and> since \<le> pr_updated_at pr) (pages p))
                                  [1 ..< Suc k])))"
proof -
  have "getPullRequests_loop api owner repo since 1 [] =
           Some (Inr (k, [] @ concat (map (\<lambda>p. filter (keep_pr since) (pages p)) [1 ..< Suc k])))"
    using assms by (intro getPullRequests_loop_run) (auto simp: perPage_def list_ex_iff)
  then show ?thesis
    by (simp add: getPullRequests_def keep_pr_def[abs_def])
qed

theorem getPullRequests_stops_witness:
  "getPullRequests_loop ex_api_stale ''o'' ''A'' 1000 1 [] =
      Some (Inr (1, replicate 99 (ex_pr 1 ''fresh'' 2000)))
   \<and> getPullRequests ex_api_stale ''o'' ''A'' 1000 = Some (Inr (replicate 99 (ex_pr 1 ''fresh'' 2000)))
   \<and> length (replicate 99 (ex_pr 1 ''fresh'' 2000) @ [ex_pr 2 ''stale'' 500]) = 100"
  using getPullRequests_stops [of 1 ex_api_stale "''o''" "''A''"
      "\<lambda>p. if p = 1 then replicate 99 (ex_pr 1 ''fresh'' 2000) @ [ex_pr 2 ''stale'' 500]
           else [ex_pr 3 ''next page'' 2000]" 1000]
  by (simp add: ex_api_stale_def ex_pr_def ex_user_def isBotUser_def)

section \<open>Accumulators of the first loop\<close>

lemma fold_process_entry:
  "fold (process_entry l7 l30 prs repoMap) es st =
     fold (review_step l7 l30)
       (concat (map (\<lambda>entry. case resolve_pr prs repoMap (fst entry) of
                            None \<Rightarrow> []
                          | Some pr \<Rightarrow> map (Pair pr) (snd entry)) es)) st"
proof (induction es arbitrary: st)
  case Nil
  show ?case by simp
next
  case (Cons e es)
  have inner: "fold (process_review l7 l30 pr) rs s = fold (review_step l7 l30) (map (Pair pr) rs) s"
    for pr rs s
    by (simp add: fold_map comp_def review_step_def)
  show ?case
    by (simp add: Cons.IH) (simp add: process_entry_def inner split: option.split)
qed

lemma process_all_reviews_pairs:
  "process_all_reviews now prs allReviews repoMap =
     fold (review_step (daysAgo now 7) (daysAgo now 30))
       (counted_pairs prs allReviews repoMap) initial_acc"
  by (simp add: process_all_reviews_def counted_pairs_def fold_process_entry)


lemma fold_stateDistribution:
  "stateDistribution (fold (review_step l7 l30) ps st) =
     fold (\<lambda>p. count_state (review_state (snd p))) ps (stateDistribution st)"
  by (induction ps arbitrary: st) (simp_all add: review_step_def process_review_def Let_def)

lemma fold_count_state:
  "fold (\<lambda>p. count_state (review_state (snd p))) ps sd =
     \<lparr>approved = approved sd + length (filter (\<lambda>p. review_state (snd p) = APPROVED) ps),
      changesRequested = changesRequested sd
         + length (filter (\<lambda>p. review_state (snd p) = CHANGES_REQUESTED) ps),
      commented = commented sd + length (filter (\<lambda>p. review_state (snd p) = COMMENTED) ps),
      pending = pending sd\<rparr>"
proof (induction ps arbitrary: sd)
  case Nil
  show ?case by simp
next
  case (Cons p ps)
  show ?case
    by (simp add: Cons.IH) (simp add: count_state_def split: ReviewState.split)
qed


text \<open>
  C4. The \<^verbatim>\<open>pending\<close> bucket is the number of open, non-merged, non-draft pull
  requests whose resolved reviews make them need review, counted before the work list
  is cut; the published work list has \<open>min 20 pending\<close> entries, so \<^verbatim>\<open>pending\<close> may
  exceed its length. The other three buckets count the visited reviews of each state.
\<close>

theorem pending_counts_pull_requests:
  "pending (reviewStateDistribution (calculateReviewMetrics now prs allReviews repoMap)) =
     length (filter (\<lambda>pr. pr_state pr = ''open'' \<and> pr_merged_at pr = None \<and> \<not> pr_draft pr
                          \<and> needs_review (prReviews allReviews repoMap pr)) prs)
   \<and> length (prsNeedingReview (calculateReviewMetrics now prs allReviews repoMap)) =
       min 20 (pending (reviewStateDistribution (calculateReviewMetrics now prs allReviews repoMap)))
   \<and> approved (reviewStateDistribution (calculateReviewMetrics now prs allReviews repoMap)) =
       length (filter (\<lambda>p. review_state (snd p) = APPROVED) (counted_pairs prs allReviews repoMap))
   \<and> changesRequested (reviewStateDistribution (calculateReviewMetrics now prs allReviews repoMap)) =
       length (filter (\<lambda>p. review_state (snd p) = CHANGES_REQUESTED)
                 (counted_pairs prs allReviews repoMap))
   \<and> commented (reviewStateDistribution (calculateReviewMetrics now prs allReviews repoMap)) =
       length (filter (\<lambda>p. review_state (snd p) = COMMENTED) (counted_pairs prs allReviews repoMap))"
  by (simp add: calculateReviewMetrics_def Let_def classify_all_def classify_all_fold
        process_all_reviews_pairs fold_stateDistribution fold_count_state initial_acc_def
        considered_def min_def)

theorem pending_counts_pull_requests_witness:
  "pending (reviewStateDistribution (calculateReviewMetrics 7200000
      (map (\<lambda>n. ex_pr (int n) ''t'' 0) [1 ..< 22])
      [(''o/A#1'', [ex_review ''bob'' COMMENTED 3600000, ex_review ''eve'' COMMENTED 3600000])]
      [(''o/A#1'', ''A'')])) = 21
   \<and> length (prsNeedingReview (calculateReviewMetrics 7200000
      (map (\<lambda>n. ex_pr (int n) ''t'' 0) [1 ..< 22])
      [(''o/A#1'', [ex_review ''bob'' COMMENTED 3600000, ex_review ''eve'' COMMENTED 3600000])]
      [(''o/A#1'', ''A'')])) = 20
   \<and> commented (reviewStateDistribution (calculateReviewMetrics 7200000
      (map (\<lambda>n. ex_pr (int n) ''t'' 0) [1 ..< 22])
      [(''o/A#1'', [ex_review ''bob'' COMMENTED 3600000, ex_review ''eve'' COMMENTED 3600000])]
      [(''o/A#1'', ''A'')])) = 2"
  using pending_counts_pull_requests [of 7200000 "map (\<lambda>n. ex_pr (int n) ''t'' 0) [1 ..< 22]"
      "[(''o/A#1'', [ex_review ''bob'' COMMENTED 3600000, ex_review ''eve'' COMMENTED 3600000])]"
      "[(''o/A#1'', ''A'')]"]
  by (simp add: counted_pairs_def prReviews_def find_composite_key_def js_keys_def js_entries_def
        is_array_index_def is_digit_def key_matches_def parseInt_def is_ws_def digits_val_def
        reviews_of_key_def needs_review_def resolve_pr_def sample_defs upt_rec[of _ 22])






section \<open>A run over two repositories\<close>

lemma ex_collect:
  "collect ex_api_two_repos 15552000000 = Some (Inr (2,
     \<lparr>st_allPullRequests = ex_pr 5 ''PR 5 of A'' 15548400000
         # map (\<lambda>n. ex_pr (int n) ''other PR of B'' 15548400000) [6 ..< 36]
         @ [ex_pr 5 ''PR 5 of B'' 15548400000],
      st_allIssues = [],
      st_allReviews = [(''o/A#5'', [ex_review ''bob'' APPROVED 15550000000])],
      st_repoMap = (''o/A#5'', ''A'')
         # map (\<lambda>n. (''o/B#'' @ number_to_string (int n), ''B'')) [6 ..< 36]
         @ [(''o/B#5'', ''B'')]\<rparr>))"
  by (simp add: fetch_defs ex_api_two_repos_def ex_repo_def sample_defs upt_rec[of _ 36])

lemma worklists_eq:
  "prsNeedingReview (calculateReviewMetrics now prs allReviews repoMap) =
     take 20 (sort_key nr_ageHours (map (needing_entry now repoMap)
        (filter (\<lambda>pr. considered pr \<and> needs_review (prReviews allReviews repoMap pr)) prs)))"
  "prsReadyToMerge (calculateReviewMetrics now prs allReviews repoMap) =
     take 20 (sort_key rm_ageHours (map (ready_entry now allReviews repoMap)
        (filter (\<lambda>pr. considered pr \<and> ready_to_merge (prReviews allReviews repoMap pr)) prs)))"
  "pending (reviewStateDistribution (calculateReviewMetrics now prs allReviews repoMap)) =
     length (filter (\<lambda>pr. considered pr \<and> needs_review (prReviews allReviews repoMap pr)) prs)"
  by (simp_all add: calculateReviewMetrics_def Let_def classify_all_def classify_all_fold)

lemma js_entries_no_index:
  "\<forall>e \<in> set obj. \<not> is_array_index (fst e) \<Longrightarrow> js_entries obj = obj"
  by (simp add: js_entries_def filter_empty_conv[THEN iffD2] filter_id_conv[THEN iffD2])

lemma find_composite_key_matches:
  "find_composite_key repoMap n = Some k \<Longrightarrow> key_matches repoMap n k"
  by (auto simp: find_composite_key_def find_Some_iff)

lemma key_A5_number: "key_matches repoMap n ''o/A#5'' \<Longrightarrow> n = 5"
  by (simp add: key_matches_def parseInt_def is_ws_def is_digit_def digits_val_def Let_def
        split: if_splits)

lemma prReviews_single:
  "prReviews [(''o/A#5'', rs)] repoMap pr =
     (if find_composite_key repoMap (pr_number pr) = Some ''o/A#5'' then rs else [])"
  by (auto simp: prReviews_def reviews_of_key_def split: option.splits)

lemma other_number: "pr_number pr \<noteq> 5 \<Longrightarrow> prReviews [(''o/A#5'', rs)] repoMap pr = []"
  using find_composite_key_matches key_A5_number by (fastforce simp: prReviews_single)

lemma not_index_o: "\<not> is_array_index (CHR ''o'' # s)"
  by (simp add: is_array_index_def is_digit_def)


lemma ex_find_5:
  assumes "\<forall>e \<in> set rest. \<not> is_array_index (fst e)"
  shows "find_composite_key ((''o/A#5'', ''A'') # rest) 5 = Some ''o/A#5''"
proof -
  have "js_entries ((''o/A#5'', ''A'') # rest) = (''o/A#5'', ''A'') # rest"
    using assms by (intro js_entries_no_index) (simp add: not_index_o)
  then show ?thesis
    by (simp add: find_composite_key_def js_keys_def key_matches_def parseInt_def is_ws_def
          is_digit_def digits_val_def)
qed


text \<open>
  C10. A run on the two-repository organization. The reviews map has the single key
  \<^verbatim>\<open>o/A#5\<close>: pull request 5 of B, the 31st of its repository, has no entry. Yet the
  aggregator looks it up by number alone, finds the key of A first and gives it the
  approval of A's pull request: it is published as ready to merge, under repository
  A, and is not among the 30 pull requests counted as needing review.
\<close>

theorem unreviewed_pr_takes_reviews_of_other_repository:
  "map_option (map_sum id (\<lambda>r. map fst (st_allReviews (snd r))))
     (collect ex_api_two_repos 15552000000) = Some (Inr [''o/A#5''])
   \<and> map_option (map_sum id (\<lambda>d. map (\<lambda>e. (rm_title e, rm_repository e, rm_approvals e))
                                   (prsReadyToMerge (reviewMetrics d))))
       (generateAnalytics ex_api_two_repos 15552000000)
     = Some (Inr [(''PR 5 of A'', ''A'', 1), (''PR 5 of B'', ''A'', 1)])
   \<and> map_option (map_sum id (\<lambda>d. pending (reviewStateDistribution (reviewMetrics d))))
       (generateAnalytics ex_api_two_repos 15552000000) = Some (Inr 30)"
proof -
  define rest where
    "rest = map (\<lambda>n. (''o/B#'' @ number_to_string (int n), ''B'')) [6 ..< 36] @ [(''o/B#5'', ''B'')]"
  define others where
    "others = map (\<lambda>n. ex_pr (int n) ''other PR of B'' 15548400000) [6 ..< 36]"
  define rs where "rs = [ex_review ''bob'' APPROVED 15550000000]"
  define a where "a = ex_pr 5 ''PR 5 of A'' 15548400000"
  define b where "b = ex_pr 5 ''PR 5 of B'' 15548400000"
  let ?repoMap = "(''o/A#5'', ''A'') # rest"
  let ?allReviews = "[(''o/A#5'', rs)]"
  let ?prs = "a # others @ [b]"
  have run: "collect ex_api_two_repos 15552000000 = Some (Inr (2,
     \<lparr>st_allPullRequests = ?prs, st_allIssues = [], st_allReviews = ?allReviews,
      st_repoMap = ?repoMap\<rparr>))"
    unfolding rest_def others_def rs_def a_def b_def by (rule ex_collect)
  have rest: "\<forall>e \<in> set rest. \<not> is_array_index (fst e)"
    unfolding rest_def by (auto simp: not_index_o)
  have key: "find_composite_key ?repoMap 5 = Some ''o/A#5''"
    by (rule ex_find_5 [OF rest])
  have num: "pr_number a = 5" "pr_number b = 5"
    by (simp_all add: a_def b_def ex_pr_def)
  have five: "prReviews ?allReviews ?repoMap a = rs" "prReviews ?allReviews ?repoMap b = rs"
    by (simp_all add: prReviews_single num key)
  have oth: "prReviews ?allReviews ?repoMap pr = [] \<and> considered pr" if "pr \<in> set others" for pr
  proof -
    from that have "pr_number pr \<noteq> 5 \<and> considered pr"
      unfolding others_def by (auto simp: ex_pr_def considered_def)
    then show ?thesis by (simp add: other_number)
  qed
  have cls: "ready_to_merge rs" "\<not> needs_review rs" "needs_review []" "\<not> ready_to_merge []"
    "considered a" "considered b"
    by (simp_all add: rs_def a_def b_def ready_to_merge_def needs_review_def considered_def
          sample_defs)
  have ready: "filter (\<lambda>pr. considered pr \<and> ready_to_merge (prReviews ?allReviews ?repoMap pr)) ?prs
                = [a, b]"
    using oth by (simp add: five cls filter_empty_conv)
  have needing: "filter (\<lambda>pr. considered pr \<and> needs_review (prReviews ?allReviews ?repoMap pr)) ?prs
                = others"
    using oth by (simp add: five cls filter_id_conv)
  have len: "length others = 30"
    by (simp add: others_def)
  have entry: "ready_entry 15552000000 ?allReviews ?repoMap a
                 = \<lparr>rm_number = 5, rm_title = ''PR 5 of A'', rm_author = ''alice'',
                    rm_authorAvatar = ''alice.png'', rm_createdAt = 15548400000,
                    rm_url = ''PR 5 of A'', rm_repository = ''A'', rm_approvals = 1,
                    rm_ageHours = 1\<rparr>"
    "ready_entry 15552000000 ?allReviews ?repoMap b
                 = \<lparr>rm_number = 5, rm_title = ''PR 5 of B'', rm_author = ''alice'',
                    rm_authorAvatar = ''alice.png'', rm_createdAt = 15548400000,
                    rm_url = ''PR 5 of B'', rm_repository = ''A'', rm_approvals = 1,
                    rm_ageHours = 1\<rparr>"
    unfolding ready_entry_def five num key
    by (simp_all add: repository_of_key_def a_def b_def rs_def sample_defs ageHours_def
          js_round_def)
  have wl: "prsReadyToMerge (calculateReviewMetrics 15552000000 ?prs ?allReviews ?repoMap)
              = take 20 (sort_key rm_ageHours
                  (map (ready_entry 15552000000 ?allReviews ?repoMap) [a, b]))"
    by (simp only: worklists_eq ready)
  have pend: "pending (reviewStateDistribution
                (calculateReviewMetrics 15552000000 ?prs ?allReviews ?repoMap)) = 30"
    by (simp only: worklists_eq needing len)
  have 1: "map_option (map_sum id (\<lambda>r. map fst (st_allReviews (snd r))))
     (collect ex_api_two_repos 15552000000) = Some (Inr [''o/A#5''])"
    by (simp add: run)
  have 2: "map_option (map_sum id (\<lambda>d. map (\<lambda>e. (rm_title e, rm_repository e, rm_approvals e))
                                   (prsReadyToMerge (reviewMetrics d))))
       (generateAnalytics ex_api_two_repos 15552000000)
     = Some (Inr [(''PR 5 of A'', ''A'', 1), (''PR 5 of B'', ''A'', 1)])"
    by (simp add: generateAnalytics_def run wl entry)
  have 3: "map_option (map_sum id (\<lambda>d. pending (reviewStateDistribution (reviewMetrics d))))
       (generateAnalytics ex_api_two_repos 15552000000) = Some (Inr 30)"
    by (simp add: generateAnalytics_def run pend)
  from 1 2 3 show ?thesis by blast
qed

section \<open>Ranking of reviewers\<close>

subsection \<open>Writing to a dictionary\<close>

lemma key_in: "(k, v) \<in> set obj \<Longrightarrow> k \<in> fst ` set obj"
  by force

lemma map_fst_js_set:
  "map fst (js_set obj k v) = (if k \<in> fst ` set obj then map fst obj else map fst obj @ [k])"
  by (induction obj) (auto dest: key_in)

lemma keys_js_set: "fst ` set (js_set obj k v) = insert k (fst ` set obj)"
proof -
  have "set (map fst (js_set obj k v)) = insert k (set (map fst obj))"
    unfolding map_fst_js_set by auto
  then show ?thesis by simp
qed

lemma map_of_js_set: "map_of (js_set obj k v) = (map_of obj)(k \<mapsto> v)"
  by (induction obj) (auto simp: fun_eq_iff)

lemma map_of_keys: "map_of obj k \<noteq> None \<longleftrightarrow> k \<in> fst ` set obj"
  by (simp add: map_of_eq_None_iff)

lemma keys_track_reviewer:
  "map fst (track_reviewer S u) =
     (if login u \<in> fst ` set S \<or> login u \<in> set object_prototype_names then map fst S
      else map fst S @ [login u])"
proof (cases "has_property S (login u)")
  case True
  then have hp: "login u \<in> fst ` set S \<or> login u \<in> set object_prototype_names"
    using map_of_keys[of S "login u"] by (auto simp: has_property_def)
  show ?thesis
  proof (cases "map_of S (login u)")
    case None
    then show ?thesis using True hp by (simp add: track_reviewer_def)
  next
    case (Some e)
    then have "login u \<in> fst ` set S" using map_of_keys[of S "login u"] by simp
    then show ?thesis using True Some by (simp add: track_reviewer_def map_fst_js_set)
  qed
next
  case False
  then have hp: "login u \<notin> fst ` set S" "login u \<notin> set object_prototype_names"
    using map_of_keys[of S "login u"] by (auto simp: has_property_def)
  show ?thesis
    using False hp
    by (simp add: track_reviewer_def Let_def map_of_js_set map_fst_js_set keys_js_set)
qed

lemma map_of_track_reviewer:
  "map_of (track_reviewer S u) k =
     (if k \<noteq> login u then map_of S k
      else (case map_of S k of
              Some e \<Rightarrow> Some (e\<lparr>rs_count := rs_count e + 1\<rparr>)
            | None \<Rightarrow> if k \<in> set object_prototype_names then None
                      else Some \<lparr>rs_count = 1, rs_avatar_url = avatar_url u\<rparr>))"
  by (auto simp: track_reviewer_def has_property_def Let_def map_of_js_set
        split: option.splits)

subsection \<open>First appearance\<close>

lemma first_seen_append: "a \<in> set ls \<Longrightarrow> first_seen (ls @ ms) a = first_seen ls a"
  by (simp add: first_seen_def takeWhile_append1)

lemma first_seen_less: "a \<in> set ls \<Longrightarrow> first_seen ls a < length ls"
  unfolding first_seen_def by (induction ls) auto

lemma first_seen_new: "l \<notin> set ls \<Longrightarrow> first_seen (ls @ [l]) l = length ls"
  unfolding first_seen_def by (induction ls) auto

lemma find_snoc:
  "find P (xs @ [x]) = (case find P xs of Some y \<Rightarrow> Some y | None \<Rightarrow> if P x then Some x else None)"
  by (induction xs) auto

subsection \<open>The reviewer table after a sequence of reviews\<close>

lemma reviewers_inv_step:
  assumes "reviewers_inv us S"
  shows "reviewers_inv (us @ [u]) (track_reviewer S u)"
proof -
  let ?ls = "map login us"
  let ?l = "login u"
  from assms have d: "distinct (map fst S)"
    and k: "set (map fst S) = {l \<in> set ?ls. l \<notin> set object_prototype_names}"
    and o: "sorted_wrt (\<lambda>a b. first_seen ?ls a < first_seen ?ls b) (map fst S)"
    and v: "\<And>k e. map_of S k = Some e \<Longrightarrow>
             rs_count e = length (filter (\<lambda>u. login u = k) us)
             \<and> (\<exists>u. find (\<lambda>u. login u = k) us = Some u \<and> rs_avatar_url e = avatar_url u)"
    unfolding reviewers_inv_def by blast+
  have keys: "fst ` set S = {l \<in> set ?ls. l \<notin> set object_prototype_names}"
    using k by simp
  have o': "sorted_wrt (\<lambda>a b. first_seen (?ls @ [?l]) a < first_seen (?ls @ [?l]) b) (map fst S)"
  proof (rule sorted_wrt_mono_rel [OF _ o])
    fix a b assume "a \<in> set (map fst S)" "b \<in> set (map fst S)"
      and "first_seen ?ls a < first_seen ?ls b"
    moreover from this k have "a \<in> set ?ls" "b \<in> set ?ls" by auto
    ultimately show "first_seen (?ls @ [?l]) a < first_seen (?ls @ [?l]) b"
      by (simp add: first_seen_append)
  qed
  have 1: "distinct (map fst (track_reviewer S u))"
    using d by (auto simp: keys_track_reviewer)
  have 2: "set (map fst (track_reviewer S u))
            = {l \<in> set (map login (us @ [u])). l \<notin> set object_prototype_names}"
    using keys by (auto simp: keys_track_reviewer)
  have 3: "sorted_wrt (\<lambda>a b. first_seen (map login (us @ [u])) a
                            < first_seen (map login (us @ [u])) b)
             (map fst (track_reviewer S u))"
  proof (cases "?l \<in> fst ` set S \<or> ?l \<in> set object_prototype_names")
    case True
    then show ?thesis using o' by (simp add: keys_track_reviewer)
  next
    case False
    then have new: "?l \<notin> set ?ls" using keys by auto
    have "first_seen (?ls @ [?l]) a < first_seen (?ls @ [?l]) ?l" if "a \<in> set (map fst S)" for a
    proof -
      from that k have "a \<in> set ?ls" by auto
      then show ?thesis
        using first_seen_less[of a ?ls] by (simp add: first_seen_append first_seen_new[OF new])
    qed
    then show ?thesis
      using False o' by (simp add: keys_track_reviewer sorted_wrt_append)
  qed
  have 4: "rs_count e = length (filter (\<lambda>u. login u = k') (us @ [u]))
             \<and> (\<exists>w. find (\<lambda>u. login u = k') (us @ [u]) = Some w \<and> rs_avatar_url e = avatar_url w)"
    if m: "map_of (track_reviewer S u) k' = Some e" for k' e
  proof (cases "k' = ?l")
    case False
    with m have "map_of S k' = Some e" by (simp add: map_of_track_reviewer)
    from v[OF this] False show ?thesis by (auto simp: find_snoc)
  next
    case True
    show ?thesis
    proof (cases "map_of S k'")
      case (Some e0)
      with m True have e: "e = e0\<lparr>rs_count := rs_count e0 + 1\<rparr>"
        by (simp add: map_of_track_reviewer)
      from v[OF Some] True e show ?thesis by (auto simp: find_snoc)
    next
      case None
      with m True have e: "e = \<lparr>rs_count = 1, rs_avatar_url = avatar_url u\<rparr>"
        and np: "k' \<notin> set object_prototype_names"
        by (simp_all add: map_of_track_reviewer split: if_splits)
      from None have "k' \<notin> fst ` set S" using map_of_keys[of S k'] by simp
      with keys np have "k' \<notin> set ?ls" by auto
      then have none: "filter (\<lambda>u. login u = k') us = []" "find (\<lambda>u. login u = k') us = None"
        by (auto simp: filter_empty_conv find_None_iff)
      show ?thesis using True e none by (simp add: find_snoc)
    qed
  qed
  show ?thesis
    unfolding reviewers_inv_def using 1 2 3 4 by blast
qed

lemma reviewers_inv_fold:
  "reviewers_inv us (fold (\<lambda>u S. track_reviewer S u) us [])"
proof (induction us rule: rev_induct)
  case Nil
  show ?case by (simp add: reviewers_inv_def)
next
  case (snoc u us)
  then show ?case by (simp add: reviewers_inv_step)
qed

subsection \<open>Enumeration order and the stable sort\<close>

lemma js_entries_set: "set (js_entries obj) = set obj"
  by (auto simp: js_entries_def)

lemma js_entries_distinct: "distinct obj \<Longrightarrow> distinct (js_entries obj)"
  by (auto simp: js_entries_def)

lemma js_entries_enumerated:
  assumes "sorted_wrt (\<lambda>a b. first_seen ls a < first_seen ls b) (map fst obj)"
  shows "sorted_wrt (\<lambda>a b. enumerated_before ls (fst a) (fst b)) (js_entries obj)"
proof -
  let ?idx = "\<lambda>e::string \<times> 'a. is_array_index (fst e)"
  let ?dv = "\<lambda>e::string \<times> 'a. digits_val (fst e)"
  let ?Q = "\<lambda>a b::string \<times> 'a. enumerated_before ls (fst a) (fst b)"
  have "sorted (map ?dv (sort_key ?dv (filter ?idx obj)))"
    by (rule sorted_sort_key)
  then have "sorted_wrt (\<lambda>a b. ?dv a \<le> ?dv b) (sort_key ?dv (filter ?idx obj))"
    by (simp add: sorted_wrt_map)
  then have p1: "sorted_wrt ?Q (sort_key ?dv (filter ?idx obj))"
    by (rule sorted_wrt_mono_rel [rotated]) (auto simp: enumerated_before_def)
  from assms have "sorted_wrt (\<lambda>a b. first_seen ls (fst a) < first_seen ls (fst b)) obj"
    by (simp add: sorted_wrt_map)
  then have "sorted_wrt (\<lambda>a b. first_seen ls (fst a) < first_seen ls (fst b))
               (filter (\<lambda>e. \<not> ?idx e) obj)"
    by (rule sorted_wrt_filter)
  then have p2: "sorted_wrt ?Q (filter (\<lambda>e. \<not> ?idx e) obj)"
    by (rule sorted_wrt_mono_rel [rotated]) (auto simp: enumerated_before_def)
  show ?thesis
    unfolding js_entries_def using p1 p2
    by (auto simp: sorted_wrt_append enumerated_before_def)
qed

lemma sorted_wrt_insort_key_stable:
  fixes f :: "'a \<Rightarrow> int"
  assumes "sorted_wrt (\<lambda>a b. f a < f b \<or> (f a = f b \<and> Q a b)) ys"
    and "\<forall>y \<in> set ys. Q x y"
  shows "sorted_wrt (\<lambda>a b. f a < f b \<or> (f a = f b \<and> Q a b)) (insort_key f x ys)"
  using assms
proof (induction ys)
  case Nil
  show ?case by simp
next
  case (Cons y ys)
  show ?case
  proof (cases "f x \<le> f y")
    case True
    have "f x < f z \<or> (f x = f z \<and> Q x z)" if "z \<in> set (y # ys)" for z
    proof -
      from that Cons.prems(1) have "f y \<le> f z" by auto
      with True have "f x \<le> f z" by simp
      moreover from that Cons.prems(2) have "Q x z" by auto
      ultimately show ?thesis by auto
    qed
    then show ?thesis using True Cons.prems(1) by simp
  next
    case False
    then have "f y < f x" by simp
    moreover have "sorted_wrt (\<lambda>a b. f a < f b \<or> (f a = f b \<and> Q a b)) (insort_key f x ys)"
      using Cons by simp
    ultimately show ?thesis using False Cons.prems(1) by (auto simp: set_insort_key)
  qed
qed

lemma sorted_wrt_sort_key_stable:
  fixes f :: "'a \<Rightarrow> int"
  assumes "sorted_wrt Q xs"
  shows "sorted_wrt (\<lambda>a b. f a < f b \<or> (f a = f b \<and> Q a b)) (sort_key f xs)"
  using assms
proof (induction xs)
  case Nil
  show ?case by simp
next
  case (Cons x xs)
  then have "sorted_wrt (\<lambda>a b. f a < f b \<or> (f a = f b \<and> Q a b)) (sort_key f xs)"
    and "\<forall>y \<in> set (sort_key f xs). Q x y"
    by simp_all
  then show ?case
    by (simp add: sorted_wrt_insort_key_stable)
qed

subsection \<open>The ranking\<close>

lemma fold_reviewerStats:
  "reviewerStats (fold (review_step l7 l30) ps st) =
     fold (\<lambda>u S. track_reviewer S u) (map (\<lambda>p. review_user (snd p)) ps) (reviewerStats st)"
  by (induction ps arbitrary: st) (simp_all add: review_step_def process_review_def Let_def)

lemma find_map_user:
  "find P (map g ps) = map_option g (find (\<lambda>p. P (g p)) ps)"
  by (induction ps) auto

text \<open>
  C5, as amended. \<^verbatim>\<open>topReviewers\<close> is the first 10 entries (or all, if fewer) of one
  list \<open>full\<close> of reviewers, one entry each, which is ranked by descending review
  count, ties in the enumeration order of the table: array-index logins first in
  ascending numeric order, then the other logins in first-seen order. Every entry is
  a reviewer of a visited review, and every such reviewer whose login does not name a
  property of \<^verbatim>\<open>Object.prototype\<close> has an entry; about the logins that do, nothing is
  stated. Each entry carries the number of visited reviews of its login and the
  avatar of the first visited review of that login.
\<close>

theorem top_reviewers_ranking:
  "\<exists>full.
     topReviewers (calculateReviewMetrics now prs allReviews repoMap) = take 10 full
     \<and> sorted_wrt (ranked_before (reviewer_logins (counted_pairs prs allReviews repoMap))) full
     \<and> distinct (map username full)
     \<and> set (map username full) \<subseteq> set (reviewer_logins (counted_pairs prs allReviews repoMap))
     \<and> (\<forall>l \<in> set (reviewer_logins (counted_pairs prs allReviews repoMap)).
           l \<notin> set object_prototype_names \<longrightarrow> l \<in> set (map username full))
     \<and> (\<forall>t \<in> set full.
           reviewCount t = length (filter (\<lambda>l. l = username t)
                                     (reviewer_logins (counted_pairs prs allReviews repoMap)))
           \<and> (\<exists>p. find (\<lambda>p. login (review_user (snd p)) = username t)
                      (counted_pairs prs allReviews repoMap) = Some p
                  \<and> avatarUrl t = avatar_url (review_user (snd p))))"
proof -
  let ?pairs = "counted_pairs prs allReviews repoMap"
  let ?us = "map (\<lambda>p. review_user (snd p)) ?pairs"
  let ?ls = "reviewer_logins ?pairs"
  let ?S = "reviewerStats (process_all_reviews now prs allReviews repoMap)"
  let ?f = "\<lambda>e::string \<times> ReviewerStat. - int (rs_count (snd e))"
  let ?mk = "\<lambda>e::string \<times> ReviewerStat. \<lparr>username = fst e, reviewCount = rs_count (snd e),
                avatarUrl = rs_avatar_url (snd e)\<rparr>"
  let ?sorted = "sort_key ?f (js_entries ?S)"
  let ?full = "map ?mk ?sorted"
  have S: "?S = fold (\<lambda>u S. track_reviewer S u) ?us []"
    by (simp add: process_all_reviews_pairs fold_reviewerStats initial_acc_def)
  have ls: "map login ?us = ?ls"
    by (simp add: reviewer_logins_def comp_def)
  have inv: "reviewers_inv ?us ?S"
    unfolding S by (rule reviewers_inv_fold)
  then have d: "distinct (map fst ?S)"
    and k: "set (map fst ?S) = {l \<in> set ?ls. l \<notin> set object_prototype_names}"
    and o: "sorted_wrt (\<lambda>a b. first_seen ?ls a < first_seen ?ls b) (map fst ?S)"
    and v: "\<And>k e. map_of ?S k = Some e \<Longrightarrow>
             rs_count e = length (filter (\<lambda>u. login u = k) ?us)
             \<and> (\<exists>u. find (\<lambda>u. login u = k) ?us = Some u \<and> rs_avatar_url e = avatar_url u)"
    unfolding reviewers_inv_def ls by blast+
  have set_sorted: "set ?sorted = set ?S"
    by (simp add: js_entries_set)
  have 1: "topReviewers (calculateReviewMetrics now prs allReviews repoMap) = take 10 ?full"
    by (simp add: calculateReviewMetrics_def Let_def top_reviewers_def take_map)
  have "sorted_wrt (\<lambda>a b. ?f a < ?f b
            \<or> (?f a = ?f b \<and> enumerated_before ?ls (fst a) (fst b))) ?sorted"
    by (rule sorted_wrt_sort_key_stable) (rule js_entries_enumerated [OF o])
  then have "sorted_wrt (\<lambda>a b. ranked_before ?ls (?mk a) (?mk b)) ?sorted"
    by (rule sorted_wrt_mono_rel [rotated]) (auto simp: ranked_before_def)
  then have 2: "sorted_wrt (ranked_before ?ls) ?full"
    by (simp add: sorted_wrt_map)
  have names: "map username ?full = map fst ?sorted"
    by simp
  have "distinct ?S" using d by (rule distinct_map [THEN iffD1, THEN conjunct1])
  then have "distinct ?sorted" by (simp add: js_entries_distinct)
  moreover have "inj_on fst (set ?sorted)"
    unfolding set_sorted using d by (simp add: distinct_map)
  ultimately have 3: "distinct (map username ?full)"
    unfolding names by (simp add: distinct_map)
  have 4: "set (map username ?full) = {l \<in> set ?ls. l \<notin> set object_prototype_names}"
    unfolding names using k set_sorted by simp
  have 5: "reviewCount t = length (filter (\<lambda>l. l = username t) ?ls)
           \<and> (\<exists>p. find (\<lambda>p. login (review_user (snd p)) = username t) ?pairs = Some p
                  \<and> avatarUrl t = avatar_url (review_user (snd p)))"
    if "t \<in> set ?full" for t
  proof -
    from that set_sorted obtain k' e where ke: "(k', e) \<in> set ?S" and t: "t = ?mk (k', e)"
      by auto
    from ke d have "map_of ?S k' = Some e" by simp
    from v[OF this] obtain u where
      c: "rs_count e = length (filter (\<lambda>u. login u = k') ?us)"
      and f: "find (\<lambda>u. login u = k') ?us = Some u" and a: "rs_avatar_url e = avatar_url u"
      by blast
    from f obtain p where "find (\<lambda>p. login (review_user (snd p)) = k') ?pairs = Some p"
      and "u = review_user (snd p)"
      by (auto simp: find_map_user)
    moreover have "length (filter (\<lambda>u. login u = k') ?us) = length (filter (\<lambda>l. l = k') ?ls)"
      by (simp add: reviewer_logins_def filter_map comp_def)
    ultimately show ?thesis using t c a by auto
  qed
  from 4 have inside: "set (map username ?full) \<subseteq> set ?ls"
    and present: "\<forall>l \<in> set ?ls. l \<notin> set object_prototype_names
                    \<longrightarrow> l \<in> set (map username ?full)"
    by blast+
  from 1 2 3 inside present 5 show ?thesis by blast
qed

theorem top_reviewers_ranking_witness:
  "sorted_wrt (ranked_before [''bob'', ''2024'', ''carol'', ''bob'', ''2024''])
     (topReviewers (calculateReviewMetrics 7200000 [ex_pr 5 ''a'' 0] ex_tied_reviews
        [(''o/A#5'', ''A'')]))
   \<and> map username (topReviewers (calculateReviewMetrics 7200000 [ex_pr 5 ''a'' 0]
        ex_tied_reviews [(''o/A#5'', ''A'')])) = [''2024'', ''bob'', ''carol'']"
proof -
  let ?T = "topReviewers (calculateReviewMetrics 7200000 [ex_pr 5 ''a'' 0] ex_tied_reviews
        [(''o/A#5'', ''A'')])"
  have ls: "reviewer_logins (counted_pairs [ex_pr 5 ''a'' 0] ex_tied_reviews [(''o/A#5'', ''A'')])
             = [''bob'', ''2024'', ''carol'', ''bob'', ''2024'']"
    by (simp add: reviewer_logins_def counted_pairs_def ex_tied_reviews_def review_defs
          sample_defs)
  from top_reviewers_ranking [of 7200000 "[ex_pr 5 ''a'' 0]" ex_tied_reviews
      "[(''o/A#5'', ''A'')]"]
  obtain full where "?T = take 10 full"
    and "sorted_wrt (ranked_before (reviewer_logins
            (counted_pairs [ex_pr 5 ''a'' 0] ex_tied_reviews [(''o/A#5'', ''A'')]))) full"
    by blast
  then have "sorted_wrt (ranked_before [''bob'', ''2024'', ''carol'', ''bob'', ''2024'']) ?T"
    using ls by (simp add: sorted_wrt_take)
  moreover have "map username ?T = [''2024'', ''bob'', ''carol'']"
    by (simp add: ex_tied_reviews_def review_defs sample_defs)
  ultimately show ?thesis by simp
qed

text \<open>
  C5, as stated, fails. In visiting order the reviewers are \<^verbatim>\<open>bob\<close>, \<^verbatim>\<open>2024\<close>,
  \<^verbatim>\<open>carol\<close>; \<^verbatim>\<open>bob\<close> and \<^verbatim>\<open>2024\<close> both have two reviews. The tie is not broken by
  first-seen order: \<^verbatim>\<open>2024\<close>, seen second, is listed before \<^verbatim>\<open>bob\<close>.
\<close>

theorem top_reviewers_first_seen_counterexample:
  "map (\<lambda>t. (username t, reviewCount t, avatarUrl t))
     (topReviewers (calculateReviewMetrics 7200000 [ex_pr 5 ''a'' 0] ex_tied_reviews
        [(''o/A#5'', ''A'')]))
    = [(''2024'', 2, ''2024.png''), (''bob'', 2, ''bob.png''), (''carol'', 1, ''carol.png'')]
   \<and> first_seen [''bob'', ''2024'', ''carol'', ''bob'', ''2024''] ''bob''
       < first_seen [''bob'', ''2024'', ''carol'', ''bob'', ''2024''] ''2024''"
  by (simp add: ex_tied_reviews_def review_defs sample_defs first_seen_def)

end
